theory Spec2Isabelle
  imports Main "HOL-Library.Word"
begin

unbundle bit_operations_syntax

section \<open>Data and configuration\<close>

text \<open>
  The firmware targets AVR boards only (it refuses to build elsewhere): \<open>int\<close> has 16
  bits, \<open>uint8_t\<close>, \<open>uint16_t\<close>, \<open>uint32_t\<close> and \<open>uint64_t\<close> are the words of
  8, 16, 32 and 64 bits.  \<open>RgbColor\<close> is the NeoPixelBus colour object with its three
  byte fields, \<open>rgbm\<close> the struct of \<open>main.cpp\<close>.
\<close>

record RgbColor =
  R :: "8 word"
  G :: "8 word"
  B :: "8 word"

record rgbm =
  rgb :: RgbColor
  M :: "8 word"

text \<open>
  \<open>config.h\<close> is not part of the sources at hand; every macro of it that
  \<open>main.cpp\<close> consults is a field of the configuration, so that each result below
  holds for every build.  The two \<open>#ifdef\<close> switches are booleans.
\<close>

record config =
  NO_MAIN_STRIP :: bool
  POTS_INVERTED :: bool
  R_POT_LOWER_BOUND :: int
  G_POT_LOWER_BOUND :: int
  B_POT_LOWER_BOUND :: int
  M_POT_LOWER_BOUND :: int
  POT_MOV_DET_MAX_DEV :: "8 word"
  POT_MOV_DET_AVG_SAMPLES :: "16 word"
  EEPROM_PATCH_ADDR :: nat
  BOOT_MSG_ASCII_ART :: string
  BOOT_MSG_AUTHORS :: string
  BOOT_MSG_LICENSE :: string
  BOOT_MSG_SRC :: string
  BUILD_DATE :: string

text \<open>
  The four potentiometer pins, and a raw conversion result: the converter of the AVR
  has ten bits, so \<open>analogRead\<close> returns a value from 0 to 1023.
\<close>

datatype pot = R_POT | G_POT | B_POT | M_POT

type_synonym adc = "10 word"

section \<open>Reading the potentiometers\<close>

text \<open>\<open>uint32_pow\<close>: the loop multiplies \<open>ret\<close> by \<open>base\<close>, \<open>pow\<close> times.\<close>

definition uint32_pow :: "8 word \<Rightarrow> 8 word \<Rightarrow> 32 word" where
  "uint32_pow base pow = ((\<lambda>ret. ret * ucast base) ^^ unat pow) 1"

text \<open>
  \<open>adc_to_rgb\<close>: the argument is a \<open>uint16_t\<close>, which AVR promotes to
  \<open>unsigned int\<close>, so the shift is a logical one; the result is cut to a byte.
\<close>

definition adc_to_rgb :: "16 word \<Rightarrow> 8 word" where
  "adc_to_rgb val =
     (if val = 0 then 0
      else if val < 4 then 1
      else ucast (drop_bit 2 val))"

text \<open>
  The expression every read goes through: \<open>ANALOG_READ_MAX - analogRead(pin)\<close> under
  \<open>POTS_INVERTED\<close>, \<open>analogRead(pin)\<close> otherwise, computed in \<open>int\<close>.
\<close>

definition pot_value :: "config \<Rightarrow> adc \<Rightarrow> 16 word" where
  "pot_value cfg a = (if POTS_INVERTED cfg then 1023 - ucast a else ucast a)"

text \<open>
  The loop of \<open>avg_pot_read\<close>: \<open>rd i\<close> is what the \<open>i\<close>-th call of
  \<open>analogRead(pin)\<close> returns; each \<open>int\<close> is widened (with its sign) and added to
  the \<open>uint64_t\<close> accumulator.
\<close>

primrec avg_acc :: "config \<Rightarrow> (nat \<Rightarrow> adc) \<Rightarrow> nat \<Rightarrow> 64 word" where
  "avg_acc cfg rd 0 = 0"
| "avg_acc cfg rd (Suc i) = avg_acc cfg rd i + scast (pot_value cfg (rd i))"

text \<open>
  \<open>round\<close> is applied to the quotient of an integer division.  The quotient is an
  integer (never above 1023, the largest read), so adding one half and cutting the
  fraction returns it, as a \<open>long\<close>.
\<close>

definition round_quotient :: "64 word \<Rightarrow> 32 word" where
  "round_quotient q = ucast q"

text \<open>
  \<open>avg_pot_read\<close>.  Dividing by a sample count of zero is undefined in C: the model
  returns \<open>None\<close> there.
\<close>

definition avg_pot_read :: "config \<Rightarrow> (nat \<Rightarrow> adc) \<Rightarrow> 16 word \<Rightarrow> 8 word option" where
  "avg_pot_read cfg rd samples =
     (if samples = 0 then None
      else Some (adc_to_rgb (ucast (round_quotient (avg_acc cfg rd (unat samples) div ucast samples)))))"

text \<open>The \<open>#if X_POT_LOWER_BOUND > 0\<close> blocks of \<open>rgbm_pots_read\<close>.\<close>

definition lower_bound :: "int \<Rightarrow> 8 word \<Rightarrow> 8 word" where
  "lower_bound lb v = (if 0 < lb \<and> uint v \<le> lb then 0 else v)"

definition rgbm_pots_read :: "config \<Rightarrow> (pot \<Rightarrow> adc) \<Rightarrow> rgbm" where
  "rgbm_pots_read cfg analogRead =
     \<lparr>rgb = \<lparr>R = lower_bound (R_POT_LOWER_BOUND cfg) (adc_to_rgb (pot_value cfg (analogRead R_POT))),
             G = lower_bound (G_POT_LOWER_BOUND cfg) (adc_to_rgb (pot_value cfg (analogRead G_POT))),
             B = lower_bound (B_POT_LOWER_BOUND cfg) (adc_to_rgb (pot_value cfg (analogRead B_POT)))\<rparr>,
      M = lower_bound (M_POT_LOWER_BOUND cfg) (adc_to_rgb (pot_value cfg (analogRead M_POT)))\<rparr>"

text \<open>
  \<open>avg_rgbm_pot_read\<close>: the four averages, red first; \<open>rd p i\<close> is the \<open>i\<close>-th read
  of pin \<open>p\<close> during the call.
\<close>

definition avg_rgbm_pot_read :: "config \<Rightarrow> (pot \<Rightarrow> nat \<Rightarrow> adc) \<Rightarrow> 16 word \<Rightarrow> rgbm option" where
  "avg_rgbm_pot_read cfg rd samples =
     Option.bind (avg_pot_read cfg (rd R_POT) samples) (\<lambda>r.
     Option.bind (avg_pot_read cfg (rd G_POT) samples) (\<lambda>g.
     Option.bind (avg_pot_read cfg (rd B_POT) samples) (\<lambda>b.
     Option.bind (avg_pot_read cfg (rd M_POT) samples) (\<lambda>m.
       Some \<lparr>rgb = \<lparr>R = r, G = g, B = b\<rparr>, M = m\<rparr>))))"

section \<open>Movement detection\<close>

text \<open>
  Arduino's \<open>abs\<close> is the macro \<open>((x)>0?(x):-(x))\<close>.  In
  \<open>abs(rgbmpots.rgb.R - avg.rgb.R) > max_dev\<close> the bytes are promoted to \<open>int\<close>
  (16 bits) before the subtraction, and the comparison is a signed one.
\<close>

definition abs_macro :: "16 word \<Rightarrow> 16 word" where
  "abs_macro x = (if 0 <s x then x else - x)"

definition deviates :: "8 word \<Rightarrow> 8 word \<Rightarrow> 8 word \<Rightarrow> bool" where
  "deviates p a max_dev \<longleftrightarrow> ucast max_dev <s abs_macro (ucast p - ucast a)"

definition rgbm_pot_mov_det :: "config \<Rightarrow> rgbm \<Rightarrow> rgbm \<Rightarrow> 8 word \<Rightarrow> bool" where
  "rgbm_pot_mov_det cfg pots av max_dev \<longleftrightarrow>
     deviates (R (rgb pots)) (R (rgb av)) max_dev \<or>
     deviates (G (rgb pots)) (G (rgb av)) max_dev \<or>
     deviates (B (rgb pots)) (B (rgb av)) max_dev \<or>
     (\<not> NO_MAIN_STRIP cfg \<and> deviates (M pots) (M av) max_dev)"

section \<open>Colour codes over the serial line\<close>

text \<open>
  An Arduino \<open>String\<close> is modelled as the list of its characters: the characters
  received are taken to be other than the zero character, which terminates the buffer of
  a \<open>String\<close>, and the memory for the buffer to be there.  Reading past the end with
  \<open>[]\<close> returns the zero character,
  and \<open>substring(left, right)\<close> swaps its bounds when they are out of order, returns
  the empty string when \<open>left\<close> is past the end, and cuts \<open>right\<close> to the length.
\<close>

definition charAt :: "string \<Rightarrow> nat \<Rightarrow> char" where
  "charAt s i = (if i < length s then s ! i else CHR 0x00)"

definition substring :: "string \<Rightarrow> nat \<Rightarrow> nat \<Rightarrow> string" where
  "substring s left right =
     (let l = (if left > right then right else left);
          r = (if left > right then left else right)
      in if l \<ge> length s then []
         else take ((if r > length s then length s else r) - l) (drop l s))"

definition RGB_HEX_STR_LEN :: nat where
  "RGB_HEX_STR_LEN = 7"

definition RGBM_HEX_STR_LEN :: nat where
  "RGBM_HEX_STR_LEN = 9"

text \<open>
  The loop of \<open>hexstr_to_uint32\<close>, by recursion over the characters still to read:
  at \<open>c # cs\<close> the index \<open>i\<close> is such that \<open>hexstr.length() - 1 - i\<close> is the
  length of \<open>cs\<close>, which the call of \<open>uint32_pow\<close> cuts to a byte.  A character is
  compared by its code; a code above 127 (negative as an AVR \<open>char\<close>) lies in none
  of the three ranges either way.  \<open>None\<close> is the return of \<open>false\<close>, which leaves
  \<open>*_hex\<close> unwritten.
\<close>

fun hexstr_loop :: "string \<Rightarrow> 32 word \<Rightarrow> 32 word option" where
  "hexstr_loop [] hex = Some hex"
| "hexstr_loop (c # cs) hex =
     (if of_char (CHR ''0'') \<le> (of_char c :: nat) \<and> (of_char c :: nat) \<le> of_char (CHR ''9'')
        then hexstr_loop cs (hex + (of_nat (of_char c) - 0x30) * uint32_pow 16 (of_nat (length cs)))
      else if of_char (CHR ''A'') \<le> (of_char c :: nat) \<and> (of_char c :: nat) \<le> of_char (CHR ''F'')
        then hexstr_loop cs (hex + (of_nat (of_char c) - 55) * uint32_pow 16 (of_nat (length cs)))
      else if of_char (CHR ''a'') \<le> (of_char c :: nat) \<and> (of_char c :: nat) \<le> of_char (CHR ''f'')
        then hexstr_loop cs (hex + (of_nat (of_char c) - 87) * uint32_pow 16 (of_nat (length cs)))
      else None)"

definition hexstr_to_uint32 :: "string \<Rightarrow> 32 word option" where
  "hexstr_to_uint32 hexstr = hexstr_loop hexstr 0"

text \<open>
  NeoPixelBus converts an \<open>HtmlColor\<close> to an \<open>RgbColor\<close> by taking the three low
  bytes of the 32-bit value: blue is the lowest, red the third.
\<close>

definition HtmlColor :: "32 word \<Rightarrow> RgbColor" where
  "HtmlColor c = \<lparr>R = ucast (drop_bit 16 c), G = ucast (drop_bit 8 c), B = ucast c\<rparr>"

text \<open>\<open>hexstr_to_rgb\<close>: \<open>None\<close> is \<open>false\<close>, with \<open>*rgb\<close> left as it was.\<close>

definition hexstr_to_rgb :: "string \<Rightarrow> RgbColor option" where
  "hexstr_to_rgb hex =
     (if charAt hex 0 \<noteq> CHR ''#'' then None
      else map_option HtmlColor (hexstr_to_uint32 (substring hex 1 RGB_HEX_STR_LEN)))"

text \<open>
  \<open>hexstr_to_rgbm\<close> writes through its pointer in two steps, so the model takes the
  caller's object and returns it with the flag.
\<close>

definition hexstr_to_rgbm :: "string \<Rightarrow> rgbm \<Rightarrow> bool \<times> rgbm" where
  "hexstr_to_rgbm hex out =
     (if charAt hex 0 \<noteq> CHR ''#'' then (False, out)
      else case hexstr_to_rgb (substring hex 0 RGB_HEX_STR_LEN) of
        None \<Rightarrow> (False, out)
      | Some c \<Rightarrow>
          (case hexstr_to_uint32 (substring hex RGB_HEX_STR_LEN RGBM_HEX_STR_LEN) of
             None \<Rightarrow> (False, out\<lparr>rgb := c\<rparr>)
           | Some m \<Rightarrow> (True, out\<lparr>rgb := c, M := ucast m\<rparr>)))"

text \<open>
  \<open>print_rgbm\<close>.  \<open>String(v, HEX)\<close> prints a byte in lower-case hexadecimal digits
  without leading zeros, \<open>String(v)\<close> in decimal ones.  Each \<open>println\<close> is one line.
\<close>

definition digit_char :: "nat \<Rightarrow> char" where
  "digit_char n = ''0123456789abcdef'' ! n"

definition String_HEX :: "8 word \<Rightarrow> string" where
  "String_HEX v =
     (if unat v < 16 then [digit_char (unat v)]
      else [digit_char (unat v div 16), digit_char (unat v mod 16)])"

definition String_DEC :: "8 word \<Rightarrow> string" where
  "String_DEC v =
     (if unat v < 10 then [digit_char (unat v)]
      else if unat v < 100 then [digit_char (unat v div 10), digit_char (unat v mod 10)]
      else [digit_char (unat v div 100), digit_char (unat v div 10 mod 10), digit_char (unat v mod 10)])"

definition pad_hex :: "string \<Rightarrow> string" where
  "pad_hex h = (if length h = 1 then ''0'' @ h else h)"

definition print_rgbm :: "rgbm \<Rightarrow> string list" where
  "print_rgbm c =
     [''Current Color: #'' @ pad_hex (String_HEX (R (rgb c))) @ pad_hex (String_HEX (G (rgb c)))
        @ pad_hex (String_HEX (B (rgb c))) @ pad_hex (String_HEX (M c)),
      ''R: '' @ String_DEC (R (rgb c)),
      ''G: '' @ String_DEC (G (rgb c)),
      ''B: '' @ String_DEC (B (rgb c)),
      ''M: '' @ String_DEC (M c)]"

section \<open>The controller\<close>

text \<open>
  The Arduino \<open>EEPROM\<close> object is a store of bytes; \<open>put\<close> and \<open>get\<close> copy the four
  bytes of an \<open>rgbm\<close> (red, green, blue, main) to and from an address.
\<close>

definition sizeof_rgbm :: nat where
  "sizeof_rgbm = 4"

definition EEPROM_put :: "nat \<Rightarrow> rgbm \<Rightarrow> (nat \<Rightarrow> 8 word) \<Rightarrow> (nat \<Rightarrow> 8 word)" where
  "EEPROM_put addr v e =
     e(addr := R (rgb v), addr + 1 := G (rgb v), addr + 2 := B (rgb v), addr + 3 := M v)"

definition EEPROM_get :: "nat \<Rightarrow> (nat \<Rightarrow> 8 word) \<Rightarrow> rgbm" where
  "EEPROM_get addr e = \<lparr>rgb = \<lparr>R = e addr, G = e (addr + 1), B = e (addr + 2)\<rparr>, M = e (addr + 3)\<rparr>"

text \<open>
  Modelled from the spec: the class \<open>PatchIndicator\<close> is not among the sources.  The
  indicator is a notify-only digit display with the calls \<open>set(index)\<close>,
  \<open>show(duration)\<close>, \<open>blink(count, on_ms, off_ms)\<close> and \<open>update()\<close>.  The model
  records the calls made to it, in order; their arguments other than the digit are
  constants of the configuration.
\<close>

datatype indicator_call = Ind_set nat | Ind_show | Ind_blink | Ind_update

text \<open>
  Modelled from the spec: the class \<open>PatchEncoder\<close> is not among the sources.  Once per
  cycle the encoder delivers one of four events: nothing, pressed, rotated left, rotated
  right.
\<close>

datatype encoder_action = no_action | pressed | left | right

text \<open>
  Modelled from the spec: the class \<open>RGBStrip\<close> (\<open>LEDStrip.h\<close>) and the routine
  \<open>authors_credit\<close> (\<open>credits.h\<close>) are not among the sources.  The output driver is
  \<open>set(ColorSample)\<close> and \<open>get() -> ColorSample\<close> for the state of the output
  device: the field \<open>rgbstrp\<close> holds the colour last set, which \<open>get\<close> returns.  The
  credits routine overlays an animation on the strip, after which \<open>serialEvent\<close> sets
  the colour of before again.

  The other fields are the global variables of \<open>main.cpp\<close>, the static buffer of
  \<open>serialEvent\<close>, and the devices written to: the duty cycle of the main strip's pin,
  the bytes of the EEPROM, the lines printed on the serial port, and the calls to the
  indicator.
\<close>

record state =
  mainstrp_bright :: "8 word"
  rgbstrp :: RgbColor
  MAIN_STRIP :: "8 word"
  rgbmpots :: rgbm
  avg :: rgbm
  patches :: "rgbm list"
  current_patch :: "8 word"
  programmed :: bool
  cmdbuf :: string
  EEPROM :: "nat \<Rightarrow> 8 word"
  Serial :: "string list"
  patch_indicator :: "indicator_call list"

text \<open>
  The \<open>#ifndef NO_MAIN_STRIP\<close> block that follows every \<open>rgbstrp.set\<close>: the
  brightness is stored and written to the pin.
\<close>

definition set_main :: "config \<Rightarrow> 8 word \<Rightarrow> state \<Rightarrow> state" where
  "set_main cfg m s =
     (if NO_MAIN_STRIP cfg then s else s\<lparr>mainstrp_bright := m, MAIN_STRIP := m\<rparr>)"

text \<open>
  The two lines that adopt a colour: a fresh average of the potentiometers becomes the
  baseline and the flag is raised.  \<open>None\<close> where the average is undefined.
\<close>

definition adopt :: "config \<Rightarrow> (pot \<Rightarrow> nat \<Rightarrow> adc) \<Rightarrow> state \<Rightarrow> state option" where
  "adopt cfg rd s =
     map_option (\<lambda>a. s\<lparr>avg := a, programmed := True\<rparr>)
       (avg_rgbm_pot_read cfg rd (POT_MOV_DET_AVG_SAMPLES cfg))"

text \<open>
  The local \<open>rgbm\<close> of the nine-character case is not initialised; it is read only
  after \<open>hexstr_to_rgbm\<close> has written both of its fields.
\<close>

definition local_rgbm :: rgbm where
  "local_rgbm = \<lparr>rgb = \<lparr>R = 0, G = 0, B = 0\<rparr>, M = 0\<rparr>"

text \<open>
  The case \<open>'\n'\<close> of \<open>serialEvent\<close>: the pair is the local \<open>valid\<close> and the state
  after the first \<open>if\<close>.
\<close>

definition parse_line :: "config \<Rightarrow> state \<Rightarrow> bool \<times> state" where
  "parse_line cfg s =
     (if length (cmdbuf s) = RGB_HEX_STR_LEN then
        (case hexstr_to_rgb (cmdbuf s) of
           None \<Rightarrow> (False, s)
         | Some c \<Rightarrow> (True, s\<lparr>rgbstrp := c\<rparr>))
      else if length (cmdbuf s) = RGBM_HEX_STR_LEN then
        (case hexstr_to_rgbm (cmdbuf s) local_rgbm of
           (False, v) \<Rightarrow> (False, s)
         | (True, v) \<Rightarrow> (True, set_main cfg (M v) (s\<lparr>rgbstrp := rgb v\<rparr>)))
      else (False, s))"

text \<open>One turn of the \<open>while\<close> loop of \<open>serialEvent\<close>, on the character \<open>c\<close>.\<close>

definition serial_char :: "config \<Rightarrow> (pot \<Rightarrow> nat \<Rightarrow> adc) \<Rightarrow> char \<Rightarrow> state \<Rightarrow> state option" where
  "serial_char cfg rd c s =
     (if c = CHR ''g'' then
        Some (s\<lparr>Serial := Serial s @ print_rgbm \<lparr>rgb = rgbstrp s, M = mainstrp_bright s\<rparr>,
                cmdbuf := []\<rparr>)
      else if c = CHR 0x07 then
        Some (s\<lparr>rgbstrp := rgbstrp s, cmdbuf := []\<rparr>)
      else if c = CHR 0x0A then
        (case parse_line cfg s of
           (True, s1) \<Rightarrow> map_option (\<lambda>s2. s2\<lparr>cmdbuf := []\<rparr>) (adopt cfg rd s1)
         | (False, s1) \<Rightarrow> Some (s1\<lparr>Serial := Serial s1 @ [''Invalid hex value!''], cmdbuf := []\<rparr>))
      else Some (s\<lparr>cmdbuf := cmdbuf s @ [c]\<rparr>))"

text \<open>
  \<open>serialEvent\<close> on the characters waiting in the receive buffer, each with the
  potentiometer reads an average would see at that moment.
\<close>

fun serialEvent :: "config \<Rightarrow> (char \<times> (pot \<Rightarrow> nat \<Rightarrow> adc)) list \<Rightarrow> state \<Rightarrow> state option" where
  "serialEvent cfg [] s = Some s"
| "serialEvent cfg ((c, rd) # rest) s =
     (case serial_char cfg rd c s of None \<Rightarrow> None | Some s' \<Rightarrow> serialEvent cfg rest s')"

text \<open>
  \<open>change_patch\<close>.  Reading \<open>patches\<close> outside the array is undefined: \<open>None\<close>.
\<close>

definition change_patch :: "config \<Rightarrow> (pot \<Rightarrow> nat \<Rightarrow> adc) \<Rightarrow> bool \<Rightarrow> state \<Rightarrow> state option" where
  "change_patch cfg rd up s =
     (let (invalid, s1) =
            (if up \<and> current_patch s < 9 then (False, s\<lparr>current_patch := current_patch s + 1\<rparr>)
             else if \<not> up \<and> current_patch s > 0 then (False, s\<lparr>current_patch := current_patch s - 1\<rparr>)
             else (True, s))
      in if \<not> invalid then
           (if unat (current_patch s1) < length (patches s1) then
              map_option
                (\<lambda>s2. s2\<lparr>patch_indicator :=
                           patch_indicator s2 @ [Ind_set (unat (current_patch s2)), Ind_show]\<rparr>)
                (adopt cfg rd
                  (set_main cfg (M (patches s1 ! unat (current_patch s1)))
                    (s1\<lparr>rgbstrp := rgb (patches s1 ! unat (current_patch s1))\<rparr>)))
            else None)
         else Some (s1\<lparr>patch_indicator := patch_indicator s1 @ [Ind_show]\<rparr>))"

text \<open>\<open>save_patch\<close>.  Writing \<open>patches\<close> outside the array is undefined: \<open>None\<close>.\<close>

definition save_patch :: "config \<Rightarrow> state \<Rightarrow> state option" where
  "save_patch cfg s =
     (if unat (current_patch s) < length (patches s) then
        (let p = \<lparr>rgb = rgbstrp s, M = mainstrp_bright s\<rparr>
         in Some (s\<lparr>patches := (patches s)[unat (current_patch s) := p],
                    EEPROM := EEPROM_put (EEPROM_PATCH_ADDR cfg + sizeof_rgbm * unat (current_patch s))
                                p (EEPROM s),
                    patch_indicator := patch_indicator s @ [Ind_blink]\<rparr>))
      else None)"

text \<open>
  \<open>setup\<close> (a reserved word here, hence the longer name), from the contents of the
  EEPROM at power-on.  Variables that it does not write keep the zero of static storage.
\<close>

definition setup_boot :: "config \<Rightarrow> (nat \<Rightarrow> 8 word) \<Rightarrow> (pot \<Rightarrow> nat \<Rightarrow> adc) \<Rightarrow> state option" where
  "setup_boot cfg e rd =
     (let ps = map (\<lambda>i. EEPROM_get (EEPROM_PATCH_ADDR cfg + sizeof_rgbm * i) e) [0..<10]
      in adopt cfg rd
           (set_main cfg (M (ps ! 0))
             \<lparr>mainstrp_bright = 0,
              rgbstrp = rgb (ps ! 0),
              MAIN_STRIP = 0,
              rgbmpots = local_rgbm,
              avg = local_rgbm,
              patches = ps,
              current_patch = 0,
              programmed = False,
              cmdbuf = [],
              EEPROM = e,
              Serial = [BOOT_MSG_ASCII_ART cfg @ [CHR 0x0A],
                        ''Author(s): '' @ BOOT_MSG_AUTHORS cfg,
                        ''License: '' @ BOOT_MSG_LICENSE cfg,
                        ''Build date: '' @ BUILD_DATE cfg,
                        ''Documentation: '' @ BOOT_MSG_SRC cfg],
              patch_indicator = [Ind_set 0, Ind_show]\<rparr>))"

text \<open>
  The first half of \<open>loop\<close>: the potentiometers are read, and unless the colour is
  programmed and the potentiometers rest, their values go to the strips.
\<close>

definition arbitrate :: "config \<Rightarrow> (pot \<Rightarrow> adc) \<Rightarrow> state \<Rightarrow> state" where
  "arbitrate cfg analogRead s =
     (let s1 = s\<lparr>rgbmpots := rgbm_pots_read cfg analogRead\<rparr>
      in if \<not> programmed s1 \<or> rgbm_pot_mov_det cfg (rgbmpots s1) (avg s1) (POT_MOV_DET_MAX_DEV cfg)
         then (set_main cfg (M (rgbmpots s1)) (s1\<lparr>rgbstrp := rgb (rgbmpots s1)\<rparr>))\<lparr>programmed := False\<rparr>
         else s1)"

text \<open>
  What one pass of \<open>loop\<close> takes from outside: the four potentiometers, the action of
  the encoder, the reads an average would see, and whether the indicator is busy.
\<close>

record cycle =
  pots_now :: "pot \<Rightarrow> adc"
  action :: encoder_action
  pots_avg :: "pot \<Rightarrow> nat \<Rightarrow> adc"
  busy :: bool

definition loop :: "config \<Rightarrow> cycle \<Rightarrow> state \<Rightarrow> state option" where
  "loop cfg i s =
     (let s1 = arbitrate cfg (pots_now i) s
      in map_option
           (\<lambda>s2. if busy i then s2\<lparr>patch_indicator := patch_indicator s2 @ [Ind_update]\<rparr> else s2)
           (case action i of
              pressed \<Rightarrow> save_patch cfg s1
            | left \<Rightarrow> change_patch cfg (pots_avg i) False s1
            | right \<Rightarrow> change_patch cfg (pots_avg i) True s1
            | no_action \<Rightarrow> Some s1))"

text \<open>Consecutive passes of \<open>loop\<close>.\<close>

fun loops :: "config \<Rightarrow> cycle list \<Rightarrow> state \<Rightarrow> state option" where
  "loops cfg [] s = Some s"
| "loops cfg (i # rest) s =
     (case loop cfg i s of None \<Rightarrow> None | Some s' \<Rightarrow> loops cfg rest s')"

text \<open>
  The states the firmware can be in: \<open>setup\<close> runs once, then \<open>loop\<close> and
  \<open>serialEvent\<close> take turns.
\<close>

inductive reachable :: "config \<Rightarrow> state \<Rightarrow> bool" for cfg :: config where
  boot: "setup_boot cfg e rd = Some s \<Longrightarrow> reachable cfg s"
| cycle: "reachable cfg s \<Longrightarrow> loop cfg i s = Some s' \<Longrightarrow> reachable cfg s'"
| serial: "reachable cfg s \<Longrightarrow> serialEvent cfg cs s = Some s' \<Longrightarrow> reachable cfg s'"

section \<open>The words of the specification\<close>

text \<open>
  The definitions of this section follow the specification, not the code: they are what
  the code is compared with.  The compared channels are red, green and blue, and the
  main channel when the build has a main strip; their deviations are the absolute
  differences between the current sample and the baseline.
\<close>

definition compared_deviations :: "config \<Rightarrow> rgbm \<Rightarrow> rgbm \<Rightarrow> int list" where
  "compared_deviations cfg c b =
     [\<bar>uint (R (rgb c)) - uint (R (rgb b))\<bar>,
      \<bar>uint (G (rgb c)) - uint (G (rgb b))\<bar>,
      \<bar>uint (B (rgb c)) - uint (B (rgb b))\<bar>]
     @ (if NO_MAIN_STRIP cfg then [] else [\<bar>uint (M c) - uint (M b)\<bar>])"

text \<open>
  A hexadecimal digit, its value, and the value of a digit string, most significant
  digit first.  Folding the six letters to lower or to upper case leaves every other
  character alone.
\<close>

definition spec_is_hex :: "char \<Rightarrow> bool" where
  "spec_is_hex c \<longleftrightarrow> c \<in> set ''0123456789ABCDEFabcdef''"

definition spec_digit :: "char \<Rightarrow> nat" where
  "spec_digit c =
     (if c \<in> set ''0123456789'' then of_char c - of_char (CHR ''0'')
      else if c \<in> set ''ABCDEF'' then 10 + (of_char c - of_char (CHR ''A''))
      else 10 + (of_char c - of_char (CHR ''a'')))"

definition spec_hex_value :: "string \<Rightarrow> nat" where
  "spec_hex_value ds = foldl (\<lambda>v c. 16 * v + spec_digit c) 0 ds"

definition spec_lower :: "char \<Rightarrow> char" where
  "spec_lower c =
     (if c = CHR ''A'' then CHR ''a'' else if c = CHR ''B'' then CHR ''b''
      else if c = CHR ''C'' then CHR ''c'' else if c = CHR ''D'' then CHR ''d''
      else if c = CHR ''E'' then CHR ''e'' else if c = CHR ''F'' then CHR ''f'' else c)"

definition spec_upper :: "char \<Rightarrow> char" where
  "spec_upper c =
     (if c = CHR ''a'' then CHR ''A'' else if c = CHR ''b'' then CHR ''B''
      else if c = CHR ''c'' then CHR ''C'' else if c = CHR ''d'' then CHR ''D''
      else if c = CHR ''e'' then CHR ''E'' else if c = CHR ''f'' then CHR ''F'' else c)"

text \<open>
  The average of a non-empty list of reads, rounded to the nearest whole number (a half
  goes up).
\<close>

definition spec_rounded_average :: "nat list \<Rightarrow> nat" where
  "spec_rounded_average rs = (2 * sum_list rs + length rs) div (2 * length rs)"

text \<open>
  The baseline: on each channel the sum of the reads (each taken from the top of the
  range when the potentiometers are inverted) divided by their number, the fraction
  dropped, and the quotient brought down to a byte: 0 stays 0, 1 to 3 become 1, 4 and
  more are divided by 4.
\<close>

definition spec_read :: "config \<Rightarrow> adc \<Rightarrow> nat" where
  "spec_read cfg a = (if POTS_INVERTED cfg then 1023 - unat a else unat a)"

definition spec_average :: "config \<Rightarrow> (nat \<Rightarrow> adc) \<Rightarrow> nat \<Rightarrow> nat" where
  "spec_average cfg rd n = sum_list (map (\<lambda>i. spec_read cfg (rd i)) [0..<n]) div n"

definition spec_byte :: "nat \<Rightarrow> 8 word" where
  "spec_byte v = of_nat (if v = 0 then 0 else if v \<le> 3 then 1 else v div 4)"

definition spec_baseline :: "config \<Rightarrow> (pot \<Rightarrow> nat \<Rightarrow> adc) \<Rightarrow> nat \<Rightarrow> rgbm" where
  "spec_baseline cfg rd n =
     \<lparr>rgb = \<lparr>R = spec_byte (spec_average cfg (rd R_POT) n),
             G = spec_byte (spec_average cfg (rd G_POT) n),
             B = spec_byte (spec_average cfg (rd B_POT) n)\<rparr>,
      M = spec_byte (spec_average cfg (rd M_POT) n)\<rparr>"

text \<open>
  The two lines that set a colour: \<open>#RRGGBB\<close> and \<open>#RRGGBBMM\<close>, with the colour
  and the main brightness they spell.
\<close>

definition spec_rgb_line :: "string \<Rightarrow> bool" where
  "spec_rgb_line l \<longleftrightarrow> length l = 7 \<and> hd l = CHR ''#'' \<and> (\<forall>c \<in> set (tl l). spec_is_hex c)"

definition spec_rgbm_line :: "string \<Rightarrow> bool" where
  "spec_rgbm_line l \<longleftrightarrow> length l = 9 \<and> hd l = CHR ''#'' \<and> (\<forall>c \<in> set (tl l). spec_is_hex c)"

definition spec_colour :: "string \<Rightarrow> RgbColor" where
  "spec_colour l =
     \<lparr>R = of_nat (spec_hex_value (take 2 (drop 1 l))),
      G = of_nat (spec_hex_value (take 2 (drop 3 l))),
      B = of_nat (spec_hex_value (take 2 (drop 5 l)))\<rparr>"

definition spec_main :: "string \<Rightarrow> 8 word" where
  "spec_main l = of_nat (spec_hex_value (take 2 (drop 7 l)))"

text \<open>
  The patch bank has exactly ten slots and a cursor from 0 to 9.  The output is the
  colour of the RGB strip together with the brightness of the main strip, in a build
  that has one.
\<close>

definition spec_patch_bank :: "state \<Rightarrow> bool" where
  "spec_patch_bank s \<longleftrightarrow> length (patches s) = 10 \<and> unat (current_patch s) \<le> 9"

definition spec_output :: "config \<Rightarrow> state \<Rightarrow> RgbColor \<times> 8 word option" where
  "spec_output cfg s = (rgbstrp s, if NO_MAIN_STRIP cfg then None else Some (mainstrp_bright s))"

definition spec_output_of :: "config \<Rightarrow> rgbm \<Rightarrow> RgbColor \<times> 8 word option" where
  "spec_output_of cfg c = (rgb c, if NO_MAIN_STRIP cfg then None else Some (M c))"

section \<open>Examples\<close>

text \<open>A build with a main strip, and a colour by its four channels.\<close>

definition example_config :: config where
  "example_config =
     \<lparr>NO_MAIN_STRIP = False, POTS_INVERTED = False,
      R_POT_LOWER_BOUND = 0, G_POT_LOWER_BOUND = 0, B_POT_LOWER_BOUND = 0, M_POT_LOWER_BOUND = 0,
      POT_MOV_DET_MAX_DEV = 5, POT_MOV_DET_AVG_SAMPLES = 2, EEPROM_PATCH_ADDR = 0,
      BOOT_MSG_ASCII_ART = [], BOOT_MSG_AUTHORS = [], BOOT_MSG_LICENSE = [], BOOT_MSG_SRC = [],
      BUILD_DATE = []\<rparr>"

definition colour :: "8 word \<Rightarrow> 8 word \<Rightarrow> 8 word \<Rightarrow> 8 word \<Rightarrow> rgbm" where
  "colour r g b m = \<lparr>rgb = \<lparr>R = r, G = g, B = b\<rparr>, M = m\<rparr>"

text \<open>
  Potentiometers at rest in the middle of their range, a programmed state with the
  baseline that goes with them, and a cycle in which all four potentiometers read the
  same value and the encoder is left alone.
\<close>

definition example_reads :: "pot \<Rightarrow> nat \<Rightarrow> adc" where
  "example_reads p i = 512"

definition example_state :: state where
  "example_state =
     \<lparr>mainstrp_bright = 40, rgbstrp = \<lparr>R = 10, G = 20, B = 30\<rparr>, MAIN_STRIP = 40,
      rgbmpots = colour 0 0 0 0, avg = colour 128 128 128 128,
      patches = replicate 10 (colour 1 2 3 4), current_patch = 0, programmed = True,
      cmdbuf = [], EEPROM = (\<lambda>a. 0), Serial = [], patch_indicator = []\<rparr>"

definition example_cycle :: "adc \<Rightarrow> cycle" where
  "example_cycle a = \<lparr>pots_now = (\<lambda>p. a), action = no_action, pots_avg = example_reads, busy = False\<rparr>"

text \<open>
  Potentiometers that move between the reads of an average, each channel on its own, and
  the build without a main strip.
\<close>

definition example_live_reads :: "pot \<Rightarrow> nat \<Rightarrow> adc" where
  "example_live_reads p i =
     (case p of
        R_POT \<Rightarrow> [100, 200] ! i
      | G_POT \<Rightarrow> [400, 401] ! i
      | B_POT \<Rightarrow> [7, 8] ! i
      | M_POT \<Rightarrow> [1023, 1023] ! i)"

definition example_config_no_main :: config where
  "example_config_no_main = example_config\<lparr>NO_MAIN_STRIP := True\<rparr>"

section \<open>Movement detection is a strict comparison\<close>

lemma uint8_bounds: "0 \<le> uint (w :: 8 word) \<and> uint w < 256"
  using uint_bounded [of w] by simp

lemma stb15_small: "- 32768 \<le> k \<Longrightarrow> k < 32768 \<Longrightarrow> signed_take_bit 15 k = (k::int)"
  by (rule signed_take_bit_int_eq_self) simp_all

lemma sint_ucast_8_16: "sint (ucast (w :: 8 word) :: 16 word) = uint w"
proof -
  have "signed_take_bit 15 (uint w) = uint w"
    using uint8_bounds [of w] by (intro stb15_small) linarith+
  then show ?thesis
    by (simp add: signed_ucast_eq)
qed

lemma sint_diff_8_16:
  "sint ((ucast (p :: 8 word) :: 16 word) - ucast (a :: 8 word)) = uint p - uint a"
proof -
  have "signed_take_bit 15 (uint p - uint a) = uint p - uint a"
    using uint8_bounds [of p] uint8_bounds [of a] by (intro stb15_small) linarith+
  then show ?thesis
    by (simp add: sint_word_diff sint_ucast_8_16)
qed

lemma deviates_iff: "deviates p a d \<longleftrightarrow> uint d < \<bar>uint p - uint a\<bar>"
  using sint_diff_8_16 [of p a] sint_diff_8_16 [of a p]
  by (auto simp add: deviates_def abs_macro_def word_sless_alt sint_ucast_8_16)

lemma mov_det_iff:
  "rgbm_pot_mov_det cfg c b d \<longleftrightarrow> (\<exists>v \<in> set (compared_deviations cfg c b). uint d < v)"
  by (auto simp add: rgbm_pot_mov_det_def deviates_iff compared_deviations_def)

text \<open>
  Claim C3.  A sample never deviates from itself, whatever the bound.  Movement is
  detected exactly when the absolute difference on at least one compared channel is
  strictly above the bound; when the difference equals the bound on every compared
  channel, nothing is detected.
\<close>

theorem rgbm_pot_mov_det_strict:
  "\<not> rgbm_pot_mov_det cfg x x d
   \<and> (rgbm_pot_mov_det cfg c b d \<longleftrightarrow> (\<exists>v \<in> set (compared_deviations cfg c b). uint d < v))
   \<and> ((\<forall>v \<in> set (compared_deviations cfg c b). v = uint d) \<longrightarrow> \<not> rgbm_pot_mov_det cfg c b d)"
proof (intro conjI impI)
  show "\<not> rgbm_pot_mov_det cfg x x d"
    by (simp add: rgbm_pot_mov_det_def deviates_iff)
  show "rgbm_pot_mov_det cfg c b d \<longleftrightarrow> (\<exists>v \<in> set (compared_deviations cfg c b). uint d < v)"
    by (rule mov_det_iff)
  assume "\<forall>v \<in> set (compared_deviations cfg c b). v = uint d"
  then show "\<not> rgbm_pot_mov_det cfg c b d"
    by (auto simp add: mov_det_iff)
qed

theorem rgbm_pot_mov_det_strict_witness:
  "\<not> rgbm_pot_mov_det example_config (colour 10 20 30 40) (colour 10 20 30 40) 5
   \<and> compared_deviations example_config (colour 10 26 30 40) (colour 10 20 30 40) = [0, 6, 0, 0]
   \<and> rgbm_pot_mov_det example_config (colour 10 26 30 40) (colour 10 20 30 40) 5
   \<and> compared_deviations example_config (colour 15 15 35 35) (colour 10 20 30 40) = [5, 5, 5, 5]
   \<and> \<not> rgbm_pot_mov_det example_config (colour 15 15 35 35) (colour 10 20 30 40) 5"
proof -
  have a: "compared_deviations example_config (colour 10 26 30 40) (colour 10 20 30 40) = [0, 6, 0, 0]"
    by (simp add: compared_deviations_def example_config_def colour_def)
  have b: "compared_deviations example_config (colour 15 15 35 35) (colour 10 20 30 40) = [5, 5, 5, 5]"
    by (simp add: compared_deviations_def example_config_def colour_def)
  show ?thesis
    using rgbm_pot_mov_det_strict [of example_config "colour 10 20 30 40" 5 "colour 10 26 30 40" "colour 10 20 30 40"]
      rgbm_pot_mov_det_strict [of example_config "colour 10 20 30 40" 5 "colour 15 15 35 35" "colour 10 20 30 40"]
    by (simp add: a b)
qed

section \<open>From a raw reading to a byte\<close>

lemma adc_to_rgb_unat:
  assumes "unat val \<le> 1023"
  shows "unat (adc_to_rgb val) = (if unat val = 0 then 0 else if unat val \<le> 3 then 1 else unat val div 4)"
proof -
  have z: "val = 0 \<longleftrightarrow> unat val = 0"
    by (simp add: unat_eq_0)
  have l: "val < 4 \<longleftrightarrow> unat val \<le> 3"
    by (simp add: word_less_nat_alt) arith
  have d: "unat (drop_bit 2 val) = unat val div 4"
    by (simp add: unat_drop_bit_eq drop_bit_eq_div unat_div_distrib)
  have "unat val div 4 < 256"
    using assms by arith
  then have "unat (ucast (drop_bit 2 val) :: 8 word) = unat val div 4"
    by (simp add: unsigned_ucast_eq d take_bit_nat_eq_self)
  then show ?thesis
    by (simp add: adc_to_rgb_def z l)
qed

text \<open>
  Claim C9.  For a raw reading from 0 to 1023: 0 maps to 0, 1 to 3 map to 1, and a
  reading of 4 or more maps to the reading divided by 4, which is the shift by two
  places; the result is at most 255.
\<close>

theorem adc_to_rgb_mapping:
  "unat val \<le> 1023 \<Longrightarrow>
     (unat val = 0 \<longrightarrow> unat (adc_to_rgb val) = 0)
     \<and> (1 \<le> unat val \<and> unat val \<le> 3 \<longrightarrow> unat (adc_to_rgb val) = 1)
     \<and> (4 \<le> unat val \<longrightarrow> unat (adc_to_rgb val) = unat val div 4
                            \<and> adc_to_rgb val = ucast (drop_bit 2 val))
     \<and> unat (adc_to_rgb val) \<le> 255"
proof -
  assume r: "unat val \<le> 1023"
  have n: "4 \<le> unat val \<Longrightarrow> val \<noteq> 0 \<and> \<not> val < 4"
    by (auto simp add: word_less_nat_alt)
  have b: "unat val div 4 \<le> 255"
    using r by arith
  show ?thesis
    using b n by (auto simp add: adc_to_rgb_unat [OF r]) (simp add: adc_to_rgb_def)
qed

theorem adc_to_rgb_mapping_witness:
  "unat (1023 :: 16 word) \<le> 1023 \<and> unat (adc_to_rgb 1023) = 255
   \<and> unat (2 :: 16 word) \<le> 1023 \<and> unat (adc_to_rgb 2) = 1
   \<and> unat (0 :: 16 word) \<le> 1023 \<and> unat (adc_to_rgb 0) = 0"
  using adc_to_rgb_mapping [of 1023] adc_to_rgb_mapping [of 2] adc_to_rgb_mapping [of 0]
  by simp

section \<open>The average of the potentiometer reads\<close>

text \<open>
  A read, inverted or not, stays between 0 and 1023, so widening it with its sign
  changes nothing, and the sum of at most 65535 of them is far below what the 64-bit
  accumulator holds: the accumulator is the exact sum.
\<close>

lemma unat_adc: "unat (a :: adc) \<le> 1023"
  using unsigned_less [of a, where 'a = nat] by simp

lemma unat_ucast_adc: "unat (ucast (a :: adc) :: 16 word) = unat a"
  using unat_adc [of a] by (simp add: unsigned_ucast_eq take_bit_nat_eq_self)

lemma pot_value_unat:
  "unat (pot_value cfg a) = (if POTS_INVERTED cfg then 1023 - unat a else unat a)"
proof -
  have k: "unat (1023 :: 16 word) = 1023"
    by simp
  have "unat (ucast a :: 16 word) \<le> unat (1023 :: 16 word)"
    using unat_adc [of a] by (simp only: k unat_ucast_adc)
  then have "(ucast a :: 16 word) \<le> 1023"
    by (simp only: word_le_nat_alt)
  then have "unat (1023 - (ucast a :: 16 word)) = unat (1023 :: 16 word) - unat (ucast a :: 16 word)"
    by (rule unat_sub)
  then have "unat (1023 - (ucast a :: 16 word)) = 1023 - unat a"
    by (simp only: k unat_ucast_adc)
  then show ?thesis
    by (simp add: pot_value_def unat_ucast_adc)
qed

lemma pot_value_le: "unat (pot_value cfg a) \<le> 1023"
  using unat_adc [of a] by (simp add: pot_value_unat)

lemma scast_pot_value: "unat (scast (pot_value cfg a) :: 64 word) = unat (pot_value cfg a)"
proof -
  let ?x = "pot_value cfg a"
  have le: "unat ?x \<le> 1023"
    by (rule pot_value_le)
  have "signed_take_bit 15 (int (unat ?x)) = int (unat ?x)"
    using le by (intro stb15_small) linarith+
  then have s: "sint ?x = int (unat ?x)"
    unfolding sint_uint uint_nat by simp
  have "int (unat ?x) \<le> 1023"
    using le by linarith
  also have "(1023 :: int) < 2 ^ 64"
    by simp
  finally have "int (unat ?x) mod 2 ^ 64 = int (unat ?x)"
    by (intro mod_pos_pos_trivial) simp_all
  then have "uint (word_of_int (int (unat ?x)) :: 64 word) = int (unat ?x)"
    unfolding uint_word_of_int by simp
  then have "int (unat (scast ?x :: 64 word)) = int (unat ?x)"
    unfolding scast_eq s uint_nat .
  then show ?thesis
    by (simp only: of_nat_eq_iff)
qed

lemma avg_acc_sum:
  "n \<le> 65535 \<Longrightarrow> unat (avg_acc cfg rd n) = (\<Sum>i<n. unat (pot_value cfg (rd i)))"
proof (induction n)
  case 0
  then show ?case by simp
next
  case (Suc n)
  then have ih: "unat (avg_acc cfg rd n) = (\<Sum>i<n. unat (pot_value cfg (rd i)))"
    by simp
  have "(\<Sum>i<n. unat (pot_value cfg (rd i))) \<le> (\<Sum>i<n. 1023)"
    by (intro sum_mono pot_value_le)
  then have b: "(\<Sum>i<n. unat (pot_value cfg (rd i))) \<le> 1023 * 65535"
    using Suc.prems by simp
  have "unat (avg_acc cfg rd n) + unat (scast (pot_value cfg (rd n)) :: 64 word) < 2 ^ LENGTH(64)"
    using b pot_value_le [of cfg "rd n"] by (simp add: ih scast_pot_value)
  then have "unat (avg_acc cfg rd n + scast (pot_value cfg (rd n))) =
      unat (avg_acc cfg rd n) + unat (scast (pot_value cfg (rd n)) :: 64 word)"
    by (simp only: unat_add_lem)
  then show ?case
    by (simp add: ih scast_pot_value)
qed

lemma avg_acc_le: "n \<le> 65535 \<Longrightarrow> unat (avg_acc cfg rd n) \<le> 1023 * n"
proof -
  assume n: "n \<le> 65535"
  have "(\<Sum>i<n. unat (pot_value cfg (rd i))) \<le> (\<Sum>i<n. 1023)"
    by (intro sum_mono pot_value_le)
  then show ?thesis
    by (simp add: avg_acc_sum [OF n])
qed

text \<open>
  The quotient is that of the integer division: the fraction is gone before \<open>round\<close>
  sees it.
\<close>

lemma avg_pot_read_floor:
  assumes "samples \<noteq> 0"
  shows "avg_pot_read cfg rd samples =
           Some (adc_to_rgb (of_nat ((\<Sum>i<unat samples. unat (pot_value cfg (rd i))) div unat samples)))"
proof -
  let ?n = "unat samples"
  let ?s = "\<Sum>i<?n. unat (pot_value cfg (rd i))"
  have n: "?n \<le> 65535" "0 < ?n"
    using unsigned_less [of samples, where 'a = nat] assms by (simp_all add: unat_gt_0)
  have s: "unat (avg_acc cfg rd ?n) = ?s" "?s \<le> 1023 * ?n"
    using avg_acc_sum [OF n(1)] avg_acc_le [OF n(1), of cfg rd] by simp_all
  have us: "unat (ucast samples :: 64 word) = ?n"
    using n by (simp add: unsigned_ucast_eq take_bit_nat_eq_self)
  have q: "unat (avg_acc cfg rd ?n div ucast samples) = ?s div ?n"
    by (simp add: unat_div_distrib us s)
  have "?s div ?n \<le> (1023 * ?n) div ?n"
    using s(2) by (rule div_le_mono)
  then have ql: "?s div ?n \<le> 1023"
    using n(2) by simp
  have "unat (round_quotient (avg_acc cfg rd ?n div ucast samples)) = ?s div ?n"
    using ql by (simp add: round_quotient_def unsigned_ucast_eq q take_bit_nat_eq_self)
  then have "unat (ucast (round_quotient (avg_acc cfg rd ?n div ucast samples)) :: 16 word) = ?s div ?n"
    using ql by (simp add: unsigned_ucast_eq take_bit_nat_eq_self)
  then have "(ucast (round_quotient (avg_acc cfg rd ?n div ucast samples)) :: 16 word) = of_nat (?s div ?n)"
    by (metis of_nat_unat ucast_id)
  then show ?thesis
    using assms by (simp add: avg_pot_read_def)
qed

text \<open>
  Claim C7.  The accumulator is wide enough, but the division truncates: on the two
  reads 7 and 8 the code averages to 7, which maps to 1, where rounding to the nearest
  gives 8, which maps to 2.
\<close>

theorem avg_pot_read_truncates:
  "avg_pot_read example_config (\<lambda>i. [7, 8] ! i) 2 = Some 1
   \<and> spec_rounded_average [7, 8] = 8
   \<and> adc_to_rgb 8 = 2"
  by (simp add: spec_rounded_average_def avg_pot_read_floor adc_to_rgb_def pot_value_def
      example_config_def lessThan_nat_numeral lessThan_Suc)

section \<open>Parsing a colour code\<close>

lemma funpow_times: "((\<lambda>ret. ret * b) ^^ n) a = a * b ^ n" for a b :: "32 word"
  by (induction n arbitrary: a) (simp_all add: funpow_swap1 mult.assoc)

lemma uint32_pow_eq: "uint32_pow base pow = ucast base ^ unat pow"
  by (simp add: uint32_pow_def funpow_times)

text \<open>One step of the loop, on a digit and on any other character.\<close>

lemma hexstr_loop_digit:
  "spec_is_hex c \<Longrightarrow>
     hexstr_loop (c # cs) hex = hexstr_loop cs (hex + of_nat (spec_digit c) * uint32_pow 16 (of_nat (length cs)))"
  unfolding spec_is_hex_def
  apply (simp add: spec_digit_def)
  apply (elim disjE)
  apply simp_all
  done

lemma char_in_range:
  assumes "a \<le> (of_char c :: nat)" "(of_char c :: nat) \<le> b"
  shows "c \<in> set (map char_of [a..<Suc b])"
proof -
  have "(of_char c :: nat) \<in> set [a..<Suc b]"
    using assms by (simp del: upt_Suc)
  then have "char_of (of_char c :: nat) \<in> char_of ` set [a..<Suc b]"
    by (rule imageI)
  then show ?thesis
    by simp
qed

lemma digits_09: "map char_of [48..<Suc (57::nat)] = ''0123456789''"
  by code_simp

lemma digits_AF: "map char_of [65..<Suc (70::nat)] = ''ABCDEF''"
  by code_simp

lemma digits_af: "map char_of [97..<Suc (102::nat)] = ''abcdef''"
  by code_simp

lemma hexstr_loop_other: "\<not> spec_is_hex c \<Longrightarrow> hexstr_loop (c # cs) hex = None"
  using char_in_range [of 48 c 57] char_in_range [of 65 c 70] char_in_range [of 97 c 102]
  unfolding digits_09 digits_AF digits_af spec_is_hex_def
  by auto


lemma foldl_hex_shift:
  "foldl (\<lambda>v c. 16 * v + spec_digit c) a ds = a * 16 ^ length ds + foldl (\<lambda>v c. 16 * v + spec_digit c) 0 ds"
proof (induction ds arbitrary: a)
  case Nil
  then show ?case by simp
next
  case (Cons d ds)
  show ?case
    using Cons.IH [of "16 * a + spec_digit d"] Cons.IH [of "spec_digit d"]
    by (simp add: algebra_simps)
qed

lemma spec_hex_value_Cons:
  "spec_hex_value (c # cs) = spec_digit c * 16 ^ length cs + spec_hex_value cs"
  using foldl_hex_shift [of "spec_digit c" cs] by (simp add: spec_hex_value_def)

lemma uint32_pow_16:
  assumes "n < 256"
  shows "uint32_pow 16 (of_nat n) = 16 ^ n"
proof -
  have "unat (of_nat n :: 8 word) = n"
    using assms by (simp add: unat_of_nat)
  then show ?thesis
    by (simp add: uint32_pow_eq)
qed

lemma hexstr_loop_valid:
  "\<forall>c \<in> set s. spec_is_hex c \<Longrightarrow> length s \<le> 256 \<Longrightarrow>
     hexstr_loop s hex = Some (hex + of_nat (spec_hex_value s))"
proof (induction s arbitrary: hex)
  case Nil
  then show ?case by (simp add: spec_hex_value_def)
next
  case (Cons c cs)
  then have c: "spec_is_hex c" and l: "length cs < 256"
    by simp_all
  have "hexstr_loop (c # cs) hex = hexstr_loop cs (hex + of_nat (spec_digit c) * 16 ^ length cs)"
    by (simp only: hexstr_loop_digit [OF c] uint32_pow_16 [OF l])
  also have "\<dots> = Some (hex + of_nat (spec_digit c) * 16 ^ length cs + of_nat (spec_hex_value cs))"
    using Cons.prems by (intro Cons.IH) simp_all
  finally show ?case
    by (simp add: spec_hex_value_Cons add.assoc)
qed

lemma hexstr_loop_invalid:
  "\<exists>c \<in> set s. \<not> spec_is_hex c \<Longrightarrow> hexstr_loop s hex = None"
proof (induction s arbitrary: hex)
  case Nil
  then show ?case by simp
next
  case (Cons c cs)
  show ?case
  proof (cases "spec_is_hex c")
    case True
    with Cons.prems have "\<exists>c \<in> set cs. \<not> spec_is_hex c"
      by auto
    then show ?thesis
      by (simp only: hexstr_loop_digit [OF True] Cons.IH)
  next
    case False
    then show ?thesis
      by (rule hexstr_loop_other)
  qed
qed

lemma hexstr_to_uint32_eq:
  "length s \<le> 256 \<Longrightarrow>
     hexstr_to_uint32 s = (if \<forall>c \<in> set s. spec_is_hex c then Some (of_nat (spec_hex_value s)) else None)"
  using hexstr_loop_valid [of s 0] hexstr_loop_invalid [of s 0]
  by (auto simp add: hexstr_to_uint32_def)

lemma substring_1_7: "substring hex 1 RGB_HEX_STR_LEN = take 6 (tl hex)"
  by (cases hex) (auto simp add: substring_def RGB_HEX_STR_LEN_def Let_def min_def)

lemma substring_0_7: "substring hex 0 RGB_HEX_STR_LEN = take 7 hex"
  by (auto simp add: substring_def RGB_HEX_STR_LEN_def Let_def)

lemma substring_7_9: "substring hex RGB_HEX_STR_LEN RGBM_HEX_STR_LEN = take 2 (drop 7 hex)"
  by (auto simp add: substring_def RGB_HEX_STR_LEN_def RGBM_HEX_STR_LEN_def Let_def)

lemma hexstr_to_rgb_eq:
  "hexstr_to_rgb hex =
     (if charAt hex 0 = CHR ''#'' \<and> (\<forall>c \<in> set (take 6 (tl hex)). spec_is_hex c)
      then Some (HtmlColor (of_nat (spec_hex_value (take 6 (tl hex)))))
      else None)"
proof -
  have "hexstr_to_uint32 (take 6 (tl hex)) =
      (if \<forall>c \<in> set (take 6 (tl hex)). spec_is_hex c
       then Some (of_nat (spec_hex_value (take 6 (tl hex)))) else None)"
    by (rule hexstr_to_uint32_eq) simp
  then show ?thesis
    unfolding hexstr_to_rgb_def substring_1_7 by simp
qed


lemma spec_lower_is_hex: "spec_is_hex (spec_lower c) = spec_is_hex c"
  by (simp add: spec_lower_def spec_is_hex_def)

lemma spec_lower_digit: "spec_digit (spec_lower c) = spec_digit c"
  by (simp add: spec_lower_def spec_digit_def)

lemma spec_upper_is_hex: "spec_is_hex (spec_upper c) = spec_is_hex c"
  by (simp add: spec_upper_def spec_is_hex_def)

lemma spec_upper_digit: "spec_digit (spec_upper c) = spec_digit c"
  by (simp add: spec_upper_def spec_digit_def)

lemma spec_lower_hash: "spec_lower c = CHR ''#'' \<longleftrightarrow> c = CHR ''#''"
  by (simp add: spec_lower_def)

lemma spec_upper_hash: "spec_upper c = CHR ''#'' \<longleftrightarrow> c = CHR ''#''"
  by (simp add: spec_upper_def)

lemma hexstr_loop_map:
  assumes "\<And>c. spec_is_hex (f c) = spec_is_hex c"
    and "\<And>c. spec_is_hex c \<Longrightarrow> spec_digit (f c) = spec_digit c"
  shows "hexstr_loop (map f s) hex = hexstr_loop s hex"
proof (induction s arbitrary: hex)
  case Nil
  then show ?case by simp
next
  case (Cons c cs)
  show ?case
  proof (cases "spec_is_hex c")
    case True
    then have t: "spec_is_hex (f c)"
      by (simp add: assms(1))
    show ?thesis
      using hexstr_loop_digit [OF t, of "map f cs" hex] hexstr_loop_digit [OF True, of cs hex]
      by (simp add: assms(2) [OF True] Cons.IH)
  next
    case False
    then have t: "\<not> spec_is_hex (f c)"
      by (simp add: assms(1))
    show ?thesis
      using hexstr_loop_other [OF t, of "map f cs" hex] hexstr_loop_other [OF False, of cs hex]
      by simp
  qed
qed

lemma substring_map: "substring (map f s) l r = map f (substring s l r)"
  by (simp add: substring_def Let_def take_map drop_map)

lemma charAt_map_hash:
  assumes "\<And>c. f c = CHR ''#'' \<longleftrightarrow> c = CHR ''#''"
  shows "charAt (map f s) 0 = CHR ''#'' \<longleftrightarrow> charAt s 0 = CHR ''#''"
  by (cases s) (simp_all add: charAt_def assms)

lemma hexstr_to_rgb_map:
  assumes "\<And>c. spec_is_hex (f c) = spec_is_hex c"
    and "\<And>c. spec_is_hex c \<Longrightarrow> spec_digit (f c) = spec_digit c"
    and "\<And>c. f c = CHR ''#'' \<longleftrightarrow> c = CHR ''#''"
  shows "hexstr_to_rgb (map f hex) = hexstr_to_rgb hex"
  using charAt_map_hash [of f hex, OF assms(3)]
  by (simp add: hexstr_to_rgb_def substring_map hexstr_to_uint32_def
      hexstr_loop_map [of f, OF assms(1) assms(2)])

lemma hexstr_to_rgb_case:
  "hexstr_to_rgb (map spec_lower hex) = hexstr_to_rgb hex"
  "hexstr_to_rgb (map spec_upper hex) = hexstr_to_rgb hex"
  by (rule hexstr_to_rgb_map; simp add: spec_lower_is_hex spec_lower_digit spec_lower_hash
        spec_upper_is_hex spec_upper_digit spec_upper_hash)+

lemma spec_digit_table: "list_all (\<lambda>c. spec_digit c < 16) ''0123456789ABCDEFabcdef''"
  by code_simp

lemma spec_digit_less: "spec_is_hex c \<Longrightarrow> spec_digit c < 16"
  using spec_digit_table unfolding spec_is_hex_def list_all_iff by blast

lemma spec_hex_value_less:
  "\<forall>c \<in> set ds. spec_is_hex c \<Longrightarrow> spec_hex_value ds < 16 ^ length ds"
proof (induction ds)
  case Nil
  then show ?case by (simp add: spec_hex_value_def)
next
  case (Cons d ds)
  then have d: "spec_digit d \<le> 15" and v: "spec_hex_value ds < 16 ^ length ds"
    using spec_digit_less [of d] by simp_all
  have "spec_digit d * 16 ^ length ds \<le> 15 * 16 ^ length ds"
    using d by (rule mult_le_mono1)
  then have "spec_digit d * 16 ^ length ds + spec_hex_value ds < 16 * 16 ^ length ds"
    using v by linarith
  then show ?case
    by (simp add: spec_hex_value_Cons)
qed

lemma hexstr_to_uint32_exact:
  assumes "\<forall>c \<in> set ds. spec_is_hex c" and "length ds \<le> 8"
  shows "\<exists>w. hexstr_to_uint32 ds = Some w \<and> unat w = spec_hex_value ds"
proof -
  have "spec_hex_value ds < 16 ^ length ds"
    using assms(1) by (rule spec_hex_value_less)
  also have "(16 :: nat) ^ length ds \<le> 16 ^ 8"
    using assms(2) by (intro power_increasing) simp_all
  finally have "spec_hex_value ds < 2 ^ 32"
    by simp
  then have "unat (of_nat (spec_hex_value ds) :: 32 word) = spec_hex_value ds"
    by (simp add: unat_of_nat)
  then show ?thesis
    using assms by (simp add: hexstr_to_uint32_eq)
qed

lemma hexstr_to_rgbm_eq:
  "hexstr_to_rgbm hex out =
     (if charAt hex 0 = CHR ''#'' \<and> (\<forall>c \<in> set (take 6 (tl hex)). spec_is_hex c) then
        (if \<forall>c \<in> set (take 2 (drop 7 hex)). spec_is_hex c
         then (True, out\<lparr>rgb := HtmlColor (of_nat (spec_hex_value (take 6 (tl hex)))),
                          M := ucast (of_nat (spec_hex_value (take 2 (drop 7 hex))) :: 32 word)\<rparr>)
         else (False, out\<lparr>rgb := HtmlColor (of_nat (spec_hex_value (take 6 (tl hex))))\<rparr>))
      else (False, out))"
proof -
  have c: "charAt (take 7 hex) 0 = charAt hex 0"
    by (cases hex) (simp_all add: charAt_def)
  have t: "take 6 (tl (take 7 hex)) = take 6 (tl hex)"
    by (cases hex) simp_all
  have m: "hexstr_to_uint32 (take 2 (drop 7 hex)) =
      (if \<forall>c \<in> set (take 2 (drop 7 hex)). spec_is_hex c
       then Some (of_nat (spec_hex_value (take 2 (drop 7 hex)))) else None)"
    by (rule hexstr_to_uint32_eq) simp
  show ?thesis
    unfolding hexstr_to_rgbm_def substring_0_7 substring_7_9 m
    by (simp add: hexstr_to_rgb_eq [of "take 7 hex"] c t)
qed

text \<open>
  Claim C5, as stated, fails: the parser does not check the length of the digit
  portion.  After the \<open>#\<close>, three digits parse as the number they spell.
\<close>

theorem hexstr_to_rgb_short_counterexample:
  "hexstr_to_rgb ''#FFF'' = Some \<lparr>R = 0, G = 0x0F, B = 0xFF\<rparr>"
  by code_simp

text \<open>
  Claim C5, amended.  \<open>hexstr_to_rgb\<close> reads the \<open>#\<close> and at most six characters
  after it.  It fails when the \<open>#\<close> is missing and when one of those characters is
  not a hexadecimal digit; otherwise it succeeds, whatever the length, with the value
  of those characters, most significant digit first.  Folding the letters to lower or to
  upper case never changes the result.
\<close>

theorem hexstr_to_rgb_amended:
  "(charAt hex 0 \<noteq> CHR ''#'' \<longrightarrow> hexstr_to_rgb hex = None)
   \<and> ((\<exists>c \<in> set (take 6 (tl hex)). \<not> spec_is_hex c) \<longrightarrow> hexstr_to_rgb hex = None)
   \<and> (charAt hex 0 = CHR ''#'' \<and> (\<forall>c \<in> set (take 6 (tl hex)). spec_is_hex c) \<longrightarrow>
        (\<exists>w. hexstr_to_uint32 (take 6 (tl hex)) = Some w
           \<and> unat w = spec_hex_value (take 6 (tl hex))
           \<and> hexstr_to_rgb hex = Some (HtmlColor w)))
   \<and> hexstr_to_rgb (map spec_lower hex) = hexstr_to_rgb hex
   \<and> hexstr_to_rgb (map spec_upper hex) = hexstr_to_rgb hex"
proof (intro conjI impI)
  assume "charAt hex 0 \<noteq> CHR ''#''"
  then show "hexstr_to_rgb hex = None"
    by (simp add: hexstr_to_rgb_def)
next
  assume "\<exists>c \<in> set (take 6 (tl hex)). \<not> spec_is_hex c"
  then show "hexstr_to_rgb hex = None"
    by (simp add: hexstr_to_rgb_eq)
next
  assume a: "charAt hex 0 = CHR ''#'' \<and> (\<forall>c \<in> set (take 6 (tl hex)). spec_is_hex c)"
  have "length (take 6 (tl hex)) \<le> 8"
    by simp
  with a obtain w where w: "hexstr_to_uint32 (take 6 (tl hex)) = Some w"
      "unat w = spec_hex_value (take 6 (tl hex))"
    using hexstr_to_uint32_exact [of "take 6 (tl hex)"] by blast
  have "hexstr_to_rgb hex = Some (HtmlColor w)"
    unfolding hexstr_to_rgb_def substring_1_7 using a w(1) by simp
  with w show "\<exists>w. hexstr_to_uint32 (take 6 (tl hex)) = Some w
           \<and> unat w = spec_hex_value (take 6 (tl hex))
           \<and> hexstr_to_rgb hex = Some (HtmlColor w)"
    by blast
next
  show "hexstr_to_rgb (map spec_lower hex) = hexstr_to_rgb hex"
    by (rule hexstr_to_rgb_case)
  show "hexstr_to_rgb (map spec_upper hex) = hexstr_to_rgb hex"
    by (rule hexstr_to_rgb_case)
qed

theorem hexstr_to_rgb_amended_witness:
  "hexstr_to_rgb ''AABBCC'' = None
   \<and> hexstr_to_rgb ''#AAZZCC'' = None
   \<and> hexstr_to_rgb ''#aAbBcC'' = Some \<lparr>R = 0xAA, G = 0xBB, B = 0xCC\<rparr>
   \<and> hexstr_to_rgb (map spec_upper ''#aAbBcC'') = Some \<lparr>R = 0xAA, G = 0xBB, B = 0xCC\<rparr>"
proof -
  have n: "hexstr_to_rgb ''AABBCC'' = None"
    using hexstr_to_rgb_amended [of "''AABBCC''"] by (simp add: charAt_def)
  have z: "hexstr_to_rgb ''#AAZZCC'' = None"
    using hexstr_to_rgb_amended [of "''#AAZZCC''"] by (simp add: spec_is_hex_def)
  obtain w where w: "unat w = spec_hex_value ''aAbBcC''" "hexstr_to_rgb ''#aAbBcC'' = Some (HtmlColor w)"
    using hexstr_to_rgb_amended [of "''#aAbBcC''"] by (auto simp add: charAt_def spec_is_hex_def)
  have "spec_hex_value ''aAbBcC'' = unat (0xAABBCC :: 32 word)"
    by (simp add: spec_hex_value_def spec_digit_def)
  then have "w = 0xAABBCC"
    using w(1) by (simp only: word_unat_eq_iff)
  then have v: "hexstr_to_rgb ''#aAbBcC'' = Some \<lparr>R = 0xAA, G = 0xBB, B = 0xCC\<rparr>"
    using w(2) by (simp add: HtmlColor_def)
  have "hexstr_to_rgb (map spec_upper ''#aAbBcC'') = hexstr_to_rgb ''#aAbBcC''"
    using hexstr_to_rgb_amended [of "''#aAbBcC''"] by blast
  then show ?thesis
    using n z v by simp
qed

text \<open>
  Claim C10.  On a line of nine characters whose first seven are a valid colour code
  and whose last two hold a character that is no hexadecimal digit,
  \<open>hexstr_to_rgbm\<close> returns \<open>false\<close> with the caller's colour already replaced by
  the parsed one (the main channel is left as it was).
\<close>

theorem hexstr_to_rgbm_not_atomic:
  "length hex = 9 \<Longrightarrow> charAt hex 0 = CHR ''#'' \<Longrightarrow> \<forall>c \<in> set (take 6 (tl hex)). spec_is_hex c \<Longrightarrow>
     \<exists>c \<in> set (drop 7 hex). \<not> spec_is_hex c \<Longrightarrow>
     hexstr_to_rgb (take 7 hex) = Some (HtmlColor (of_nat (spec_hex_value (take 6 (tl hex)))))
     \<and> hexstr_to_rgbm hex out = (False, out\<lparr>rgb := HtmlColor (of_nat (spec_hex_value (take 6 (tl hex))))\<rparr>)"
proof -
  assume l: "length hex = 9" and h: "charAt hex 0 = CHR ''#''"
    and d: "\<forall>c \<in> set (take 6 (tl hex)). spec_is_hex c" and m: "\<exists>c \<in> set (drop 7 hex). \<not> spec_is_hex c"
  have "take 2 (drop 7 hex) = drop 7 hex"
    using l by simp
  then have m': "\<not> (\<forall>c \<in> set (take 2 (drop 7 hex)). spec_is_hex c)"
    using m by simp
  have c: "charAt (take 7 hex) 0 = charAt hex 0"
    by (cases hex) (simp_all add: charAt_def)
  have t: "take 6 (tl (take 7 hex)) = take 6 (tl hex)"
    by (cases hex) simp_all
  show ?thesis
    using h d m' by (simp add: hexstr_to_rgbm_eq hexstr_to_rgb_eq [of "take 7 hex"] c t)
qed

theorem hexstr_to_rgbm_not_atomic_witness:
  "hexstr_to_rgbm ''#AABBCCZZ'' (colour 1 2 3 4) = (False, colour 0xAA 0xBB 0xCC 4)
   \<and> hexstr_to_rgb ''#AABBCC'' = Some \<lparr>R = 0xAA, G = 0xBB, B = 0xCC\<rparr>"
proof -
  have v: "HtmlColor (of_nat (spec_hex_value ''AABBCC'')) = \<lparr>R = 0xAA, G = 0xBB, B = 0xCC\<rparr>"
    by (simp add: spec_hex_value_def spec_digit_def HtmlColor_def)
  show ?thesis
    using hexstr_to_rgbm_not_atomic [of "''#AABBCCZZ''" "colour 1 2 3 4"]
    by (simp add: charAt_def spec_is_hex_def v colour_def)
qed

section \<open>The colour a line spells\<close>

text \<open>
  Six digits decode to three bytes: the first two digits are red, the next two green,
  the last two blue.
\<close>

lemma spec_hex_value_append:
  "spec_hex_value (xs @ ys) = spec_hex_value xs * 16 ^ length ys + spec_hex_value ys"
  using foldl_hex_shift [of "spec_hex_value xs" ys] by (simp add: spec_hex_value_def)

lemma HtmlColor_unat:
  "unat (R (HtmlColor w)) = unat w div 65536 mod 256"
  "unat (G (HtmlColor w)) = unat w div 256 mod 256"
  "unat (B (HtmlColor w)) = unat w mod 256"
  by (simp_all add: HtmlColor_def unsigned_ucast_eq unat_drop_bit_eq drop_bit_eq_div take_bit_eq_mod unat_div_distrib)

lemma split3:
  fixes a b c :: nat
  assumes "b < 256" "c < 256"
  shows "(a * 65536 + b * 256 + c) div 65536 = a"
    "(a * 65536 + b * 256 + c) div 256 mod 256 = b"
    "(a * 65536 + b * 256 + c) mod 256 = c"
proof -
  have e: "a * 65536 + b * 256 + c = (a * 256 + b) * 256 + c"
    by (simp add: algebra_simps)
  have r: "b * 256 + c < 65536"
    using assms by linarith
  have "(a * 65536 + (b * 256 + c)) div 65536 = a"
    using r by simp
  then show "(a * 65536 + b * 256 + c) div 65536 = a"
    by (simp add: add.assoc)
  have "((a * 256 + b) * 256 + c) div 256 = a * 256 + b"
    using assms(2) by simp
  then show "(a * 65536 + b * 256 + c) div 256 mod 256 = b"
    unfolding e using assms(1) by simp
  have "((a * 256 + b) * 256 + c) mod 256 = c mod 256"
    by (rule mod_mult_self3)
  then show "(a * 65536 + b * 256 + c) mod 256 = c"
    unfolding e using assms(2) by (simp only: mod_less)
qed

lemma word8_of_nat_unat: "unat (w :: 8 word) = n \<Longrightarrow> w = of_nat n"
  by (metis of_nat_unat ucast_id)

lemma six_digits:
  assumes "length ds = 6" "\<forall>c \<in> set ds. spec_is_hex c"
  shows "HtmlColor (of_nat (spec_hex_value ds)) =
           \<lparr>R = of_nat (spec_hex_value (take 2 ds)),
            G = of_nat (spec_hex_value (take 2 (drop 2 ds))),
            B = of_nat (spec_hex_value (take 2 (drop 4 ds)))\<rparr>"
proof -
  let ?a = "spec_hex_value (take 2 ds)"
  let ?b = "spec_hex_value (take 2 (drop 2 ds))"
  let ?c = "spec_hex_value (take 2 (drop 4 ds))"
  obtain d1 d2 d3 d4 d5 d6 where d: "ds = [d1, d2, d3, d4, d5, d6]"
    using assms(1) by (auto simp add: length_Suc_conv eval_nat_numeral)
  have s: "ds = take 2 ds @ take 2 (drop 2 ds) @ take 2 (drop 4 ds)"
    by (simp add: d)
  have "spec_hex_value ds = spec_hex_value (take 2 ds @ take 2 (drop 2 ds) @ take 2 (drop 4 ds))"
    using s by simp
  also have "\<dots> = ?a * 65536 + ?b * 256 + ?c"
    using assms(1) by (simp only: spec_hex_value_append) simp
  finally have v: "spec_hex_value ds = ?a * 65536 + ?b * 256 + ?c" .
  have h: "\<forall>c \<in> set (take 2 ds). spec_is_hex c" "\<forall>c \<in> set (take 2 (drop 2 ds)). spec_is_hex c"
      "\<forall>c \<in> set (take 2 (drop 4 ds)). spec_is_hex c"
    using assms(2) by (simp_all add: d)
  have a: "?a < 256"
    using spec_hex_value_less [OF h(1)] assms(1) by simp
  have b: "?b < 256"
    using spec_hex_value_less [OF h(2)] assms(1) by simp
  have c: "?c < 256"
    using spec_hex_value_less [OF h(3)] assms(1) by simp
  have "?a * 65536 + ?b * 256 + ?c < 256 * 65536"
    using a b c by linarith
  then have "spec_hex_value ds < 2 ^ LENGTH(32)"
    by (simp add: v)
  then have "unat (of_nat (spec_hex_value ds) :: 32 word) = spec_hex_value ds"
    by (simp only: unat_of_nat mod_less)
  then have u: "unat (of_nat (spec_hex_value ds) :: 32 word) = ?a * 65536 + ?b * 256 + ?c"
    by (simp only: v)
  have "unat (R (HtmlColor (of_nat (spec_hex_value ds)))) = ?a"
    using a by (simp only: HtmlColor_unat u split3 [OF b c]) simp
  moreover have "unat (G (HtmlColor (of_nat (spec_hex_value ds)))) = ?b"
    by (simp only: HtmlColor_unat u split3 [OF b c])
  moreover have "unat (B (HtmlColor (of_nat (spec_hex_value ds)))) = ?c"
    by (simp only: HtmlColor_unat u split3 [OF b c])
  ultimately have "R (HtmlColor (of_nat (spec_hex_value ds))) = of_nat ?a"
    "G (HtmlColor (of_nat (spec_hex_value ds))) = of_nat ?b"
    "B (HtmlColor (of_nat (spec_hex_value ds))) = of_nat ?c"
    by (simp_all only: word8_of_nat_unat)
  then show ?thesis
    by (cases "HtmlColor (of_nat (spec_hex_value ds))") simp
qed

text \<open>
  A line of seven characters parses exactly when it is \<open>#\<close> and six digits, one of
  nine characters exactly when it is \<open>#\<close> and eight digits.
\<close>

lemma ucast_of_nat_32_8: "(ucast (of_nat n :: 32 word) :: 8 word) = of_nat n"
proof -
  have "unat (ucast (of_nat n :: 32 word) :: 8 word) = n mod 4294967296 mod 256"
    by (simp add: unsigned_ucast_eq unat_of_nat take_bit_eq_mod)
  also have "\<dots> = n mod 256"
    by (rule mod_mod_cancel) simp
  also have "\<dots> = unat (of_nat n :: 8 word)"
    by (simp add: unat_of_nat)
  finally show ?thesis
    by (simp only: word_unat_eq_iff)
qed

lemma seven_chars:
  assumes "length l = 7"
  obtains c ds where "l = c # ds" "length ds = 6"
  using assms by (cases l) simp_all

lemma hexstr_to_rgb_line:
  assumes "length l = 7"
  shows "hexstr_to_rgb l = (if spec_rgb_line l then Some (spec_colour l) else None)"
proof -
  obtain c ds where l: "l = c # ds" and d: "length ds = 6"
    using assms by (rule seven_chars)
  have t: "take 6 ds = ds" "charAt l 0 = c" "hd l = c" "tl l = ds"
    using d by (simp_all add: l charAt_def)
  show ?thesis
  proof (cases "spec_rgb_line l")
    case True
    then have h: "\<forall>c \<in> set ds. spec_is_hex c" and c: "c = CHR ''#''"
      by (simp_all add: spec_rgb_line_def t)
    have "spec_colour l = HtmlColor (of_nat (spec_hex_value ds))"
      using six_digits [OF d h] by (simp add: spec_colour_def l)
    then show ?thesis
      using True h c by (simp add: hexstr_to_rgb_eq t)
  next
    case False
    then have "c \<noteq> CHR ''#'' \<or> (\<exists>c \<in> set ds. \<not> spec_is_hex c)"
      using assms by (auto simp add: spec_rgb_line_def t)
    then show ?thesis
      using False by (auto simp add: hexstr_to_rgb_eq t)
  qed
qed

lemma hexstr_to_rgbm_line:
  assumes "length l = 9"
  shows "hexstr_to_rgbm l out =
           (if spec_rgbm_line l then (True, \<lparr>rgb = spec_colour l, M = spec_main l\<rparr>)
            else (False, snd (hexstr_to_rgbm l out)))"
proof -
  obtain c ds where l: "l = c # ds" and d: "length ds = 8"
    using assms by (cases l) simp_all
  have t: "charAt l 0 = c" "hd l = c" "tl l = ds" "take 2 (drop 7 l) = drop 6 ds"
    using d by (simp_all add: l charAt_def)
  have six: "length (take 6 ds) = 6"
    using d by simp
  have sp: "set ds = set (take 6 ds) \<union> set (drop 6 ds)"
    by (metis append_take_drop_id set_append)
  show ?thesis
  proof (cases "spec_rgbm_line l")
    case True
    then have h: "\<forall>c \<in> set (take 6 ds). spec_is_hex c" "\<forall>c \<in> set (drop 6 ds). spec_is_hex c"
      and c: "c = CHR ''#''"
      by (simp_all add: spec_rgbm_line_def t sp)
    have "spec_colour l = HtmlColor (of_nat (spec_hex_value (take 6 ds)))"
      using six_digits [OF six h(1)] by (simp add: spec_colour_def l take_drop)
    then show ?thesis
      using True h c
      by (cases out) (simp add: hexstr_to_rgbm_eq t ucast_of_nat_32_8 spec_main_def)
  next
    case False
    then have "c \<noteq> CHR ''#'' \<or> (\<exists>c \<in> set (take 6 ds). \<not> spec_is_hex c)
        \<or> (\<exists>c \<in> set (drop 6 ds). \<not> spec_is_hex c)"
      using assms by (auto simp add: spec_rgbm_line_def t sp)
    then show ?thesis
      using False by (auto simp add: hexstr_to_rgbm_eq t)
  qed
qed

lemma parse_line_eq:
  "parse_line cfg s =
     (if spec_rgb_line (cmdbuf s) then (True, s\<lparr>rgbstrp := spec_colour (cmdbuf s)\<rparr>)
      else if spec_rgbm_line (cmdbuf s)
        then (True, set_main cfg (spec_main (cmdbuf s)) (s\<lparr>rgbstrp := spec_colour (cmdbuf s)\<rparr>))
      else (False, s))"
proof -
  consider (seven) "length (cmdbuf s) = 7" | (nine) "length (cmdbuf s) = 9"
    | (other) "length (cmdbuf s) \<noteq> 7" "length (cmdbuf s) \<noteq> 9"
    by blast
  then show ?thesis
  proof cases
    case seven
    then have "\<not> spec_rgbm_line (cmdbuf s)"
      by (simp add: spec_rgbm_line_def)
    then show ?thesis
      using seven by (simp add: parse_line_def RGB_HEX_STR_LEN_def hexstr_to_rgb_line)
  next
    case nine
    then have n: "\<not> spec_rgb_line (cmdbuf s)"
      by (simp add: spec_rgb_line_def)
    have p: "parse_line cfg s =
        (case hexstr_to_rgbm (cmdbuf s) local_rgbm of
           (False, v) \<Rightarrow> (False, s)
         | (True, v) \<Rightarrow> (True, set_main cfg (M v) (s\<lparr>rgbstrp := rgb v\<rparr>)))"
      using nine by (simp add: parse_line_def RGB_HEX_STR_LEN_def RGBM_HEX_STR_LEN_def)
    show ?thesis
    proof (cases "spec_rgbm_line (cmdbuf s)")
      case True
      then have "hexstr_to_rgbm (cmdbuf s) local_rgbm =
          (True, \<lparr>rgb = spec_colour (cmdbuf s), M = spec_main (cmdbuf s)\<rparr>)"
        using hexstr_to_rgbm_line [OF nine, of local_rgbm] by simp
      then show ?thesis
        using True n by (simp add: p)
    next
      case False
      then have "hexstr_to_rgbm (cmdbuf s) local_rgbm = (False, snd (hexstr_to_rgbm (cmdbuf s) local_rgbm))"
        using hexstr_to_rgbm_line [OF nine, of local_rgbm] by simp
      then have "(case hexstr_to_rgbm (cmdbuf s) local_rgbm of
           (False, v) \<Rightarrow> (False, s)
         | (True, v) \<Rightarrow> (True, set_main cfg (M v) (s\<lparr>rgbstrp := rgb v\<rparr>))) = (False, s)"
        by (metis (mono_tags, lifting) case_prod_conv bool.simps(4) old.bool.simps(4))
      then show ?thesis
        using False n by (simp add: p)
    qed
  next
    case other
    then have "\<not> spec_rgb_line (cmdbuf s)" "\<not> spec_rgbm_line (cmdbuf s)"
      by (simp_all add: spec_rgb_line_def spec_rgbm_line_def)
    then show ?thesis
      using other by (simp add: parse_line_def RGB_HEX_STR_LEN_def RGBM_HEX_STR_LEN_def)
  qed
qed

section \<open>A line on the serial port\<close>

lemma cursor_up:
  assumes "(c :: 8 word) < 9"
  shows "unat (c + 1) = unat c + 1"
proof -
  have "unat c < 9"
    using assms by (simp add: word_less_nat_alt)
  then have "unat c + unat (1 :: 8 word) < 2 ^ LENGTH(8)"
    by simp
  then have "unat (c + 1) = unat c + unat (1 :: 8 word)"
    by (simp only: unat_add_lem)
  then show ?thesis by simp
qed

lemma cursor_down:
  assumes "(c :: 8 word) > 0"
  shows "unat (c - 1) = unat c - 1"
  using assms by (simp add: unat_minus_one word_gt_0)

lemma cursor_le: "(c :: 8 word) < 9 \<longleftrightarrow> unat c < 9"
  by (simp add: word_less_nat_alt)

lemma cursor_pos: "(c :: 8 word) > 0 \<longleftrightarrow> 0 < unat c"
  by (simp add: word_less_nat_alt)

lemma avg_rgbm_pot_read_Some:
  "samples \<noteq> 0 \<Longrightarrow> \<exists>a. avg_rgbm_pot_read cfg rd samples = Some a"
  by (simp add: avg_rgbm_pot_read_def avg_pot_read_def)

lemma avg_rgbm_pot_read_None: "avg_rgbm_pot_read cfg rd 0 = None"
  by (simp add: avg_rgbm_pot_read_def avg_pot_read_def)

lemma adopt_Some_iff:
  "adopt cfg rd s = Some s' \<longleftrightarrow>
     (\<exists>a. avg_rgbm_pot_read cfg rd (POT_MOV_DET_AVG_SAMPLES cfg) = Some a
        \<and> s' = s\<lparr>avg := a, programmed := True\<rparr>)"
  by (auto simp add: adopt_def)

lemma adopt_total:
  "POT_MOV_DET_AVG_SAMPLES cfg \<noteq> 0 \<Longrightarrow> \<exists>s'. adopt cfg rd s = Some s'"
  using avg_rgbm_pot_read_Some [of "POT_MOV_DET_AVG_SAMPLES cfg" cfg rd]
  by (auto simp add: adopt_def)

lemma set_main_fields:
  "rgbstrp (set_main cfg m s) = rgbstrp s"
  "patches (set_main cfg m s) = patches s"
  "current_patch (set_main cfg m s) = current_patch s"
  "programmed (set_main cfg m s) = programmed s"
  "avg (set_main cfg m s) = avg s"
  "cmdbuf (set_main cfg m s) = cmdbuf s"
  "Serial (set_main cfg m s) = Serial s"
  "EEPROM (set_main cfg m s) = EEPROM s"
  "patch_indicator (set_main cfg m s) = patch_indicator s"
  "rgbmpots (set_main cfg m s) = rgbmpots s"
  "mainstrp_bright (set_main cfg m s) = (if NO_MAIN_STRIP cfg then mainstrp_bright s else m)"
  "MAIN_STRIP (set_main cfg m s) = (if NO_MAIN_STRIP cfg then MAIN_STRIP s else m)"
  by (simp_all add: set_main_def)

lemma serial_newline:
  "serial_char cfg rd (CHR 0x0A) s =
     (if spec_rgb_line (cmdbuf s) then
        map_option (\<lambda>s2. s2\<lparr>cmdbuf := []\<rparr>) (adopt cfg rd (s\<lparr>rgbstrp := spec_colour (cmdbuf s)\<rparr>))
      else if spec_rgbm_line (cmdbuf s) then
        map_option (\<lambda>s2. s2\<lparr>cmdbuf := []\<rparr>)
          (adopt cfg rd (set_main cfg (spec_main (cmdbuf s)) (s\<lparr>rgbstrp := spec_colour (cmdbuf s)\<rparr>)))
      else Some (s\<lparr>Serial := Serial s @ [''Invalid hex value!''], cmdbuf := []\<rparr>))"
  by (simp add: serial_char_def parse_line_eq)

text \<open>
  What \<open>avg_rgbm_pot_read\<close> returns is the baseline of the specification, channel by
  channel.
\<close>

lemma sum_reads:
  "(\<Sum>i<n. unat (pot_value cfg (rd i))) = sum_list (map (\<lambda>i. spec_read cfg (rd i)) [0..<n])"
  by (simp add: interv_sum_list_conv_sum_set_nat pot_value_unat spec_read_def atLeast0LessThan)

lemma adc_to_rgb_of_nat:
  assumes "v \<le> 1023"
  shows "adc_to_rgb (of_nat v) = spec_byte v"
proof -
  have "v < 2 ^ LENGTH(16)"
    using assms by simp
  then have u: "unat (of_nat v :: 16 word) = v"
    by (simp only: unat_of_nat mod_less)
  have "unat (adc_to_rgb (of_nat v)) = (if v = 0 then 0 else if v \<le> 3 then 1 else v div 4)"
    using adc_to_rgb_unat [of "of_nat v"] assms by (simp only: u)
  then show ?thesis
    unfolding spec_byte_def by (rule word8_of_nat_unat)
qed

lemma spec_average_le: "spec_average cfg rd n \<le> 1023"
proof (cases "n = 0")
  case True
  then show ?thesis by (simp add: spec_average_def)
next
  case False
  have "sum_list (map (\<lambda>i. spec_read cfg (rd i)) [0..<n]) = (\<Sum>i<n. spec_read cfg (rd i))"
    by (simp add: interv_sum_list_conv_sum_set_nat atLeast0LessThan)
  also have "\<dots> \<le> (\<Sum>i<n. 1023)"
    using unat_adc by (intro sum_mono) (simp add: spec_read_def)
  finally have "sum_list (map (\<lambda>i. spec_read cfg (rd i)) [0..<n]) \<le> 1023 * n"
    by simp
  then have "sum_list (map (\<lambda>i. spec_read cfg (rd i)) [0..<n]) div n \<le> (1023 * n) div n"
    by (rule div_le_mono)
  then show ?thesis
    using False by (simp add: spec_average_def)
qed

lemma avg_pot_read_spec:
  "samples \<noteq> 0 \<Longrightarrow> avg_pot_read cfg rd samples = Some (spec_byte (spec_average cfg rd (unat samples)))"
  using spec_average_le [of cfg rd "unat samples"]
  by (simp add: avg_pot_read_floor sum_reads adc_to_rgb_of_nat flip: spec_average_def)

lemma avg_rgbm_pot_read_spec:
  "samples \<noteq> 0 \<Longrightarrow> avg_rgbm_pot_read cfg rd samples = Some (spec_baseline cfg rd (unat samples))"
  by (simp add: avg_rgbm_pot_read_def avg_pot_read_spec spec_baseline_def)

text \<open>The examples, evaluated.\<close>

lemma example_average:
  "avg_rgbm_pot_read example_config example_reads (POT_MOV_DET_AVG_SAMPLES example_config)
     = Some (colour 128 128 128 128)"
  by code_simp

lemma example_rest: "rgbm_pots_read example_config (pots_now (example_cycle 512)) = avg example_state"
  by code_simp

lemma example_moved:
  "rgbm_pots_read example_config (pots_now (example_cycle 600)) = colour 150 150 150 150"
  by code_simp

lemma example_lines:
  "spec_rgb_line ''#AABBCC''" "spec_rgbm_line ''#AABBCCDD''"
  "\<not> spec_rgb_line ''#ZZZZZZ''" "\<not> spec_rgbm_line ''#ZZZZZZ''"
  "spec_colour ''#AABBCC'' = \<lparr>R = 0xAA, G = 0xBB, B = 0xCC\<rparr>"
  "spec_colour ''#AABBCCDD'' = \<lparr>R = 0xAA, G = 0xBB, B = 0xCC\<rparr>"
  "spec_main ''#AABBCCDD'' = 0xDD"
  by code_simp+

lemma example_baseline:
  "spec_baseline example_config example_live_reads (unat (POT_MOV_DET_AVG_SAMPLES example_config))
     = colour 37 100 1 255"
  by code_simp

text \<open>
  Claim C2.  When the line terminator arrives and the buffer holds a valid colour line
  (where the average is defined, that is for a sample count other than zero), the
  controller is programmed afterwards, whatever it was before; the strip shows the
  colour the line spells, and the main strip, in a build that has one, the brightness of
  a nine-character line (of a seven-character line it keeps its own); and the baseline
  is replaced as a whole by the average of the potentiometer reads of that moment: on
  each channel the sum of the reads divided by their number and brought down to a
  byte, whatever the colour and whatever the baseline before.
\<close>

theorem serial_set_colour:
  "POT_MOV_DET_AVG_SAMPLES cfg \<noteq> 0 \<Longrightarrow> spec_rgb_line (cmdbuf s) \<or> spec_rgbm_line (cmdbuf s) \<Longrightarrow>
     \<exists>s'. serial_char cfg rd (CHR 0x0A) s = Some s'
       \<and> programmed s'
       \<and> avg s' = spec_baseline cfg rd (unat (POT_MOV_DET_AVG_SAMPLES cfg))
       \<and> avg_rgbm_pot_read cfg rd (POT_MOV_DET_AVG_SAMPLES cfg) = Some (avg s')
       \<and> rgbstrp s' = spec_colour (cmdbuf s)
       \<and> spec_output cfg s' =
            (spec_colour (cmdbuf s),
             if NO_MAIN_STRIP cfg then None
             else Some (if spec_rgbm_line (cmdbuf s) then spec_main (cmdbuf s) else mainstrp_bright s))
       \<and> mainstrp_bright s' =
            (if spec_rgbm_line (cmdbuf s) \<and> \<not> NO_MAIN_STRIP cfg then spec_main (cmdbuf s)
             else mainstrp_bright s)"
proof -
  assume n: "POT_MOV_DET_AVG_SAMPLES cfg \<noteq> 0" and l: "spec_rgb_line (cmdbuf s) \<or> spec_rgbm_line (cmdbuf s)"
  have a: "avg_rgbm_pot_read cfg rd (POT_MOV_DET_AVG_SAMPLES cfg)
      = Some (spec_baseline cfg rd (unat (POT_MOV_DET_AVG_SAMPLES cfg)))"
    using n by (rule avg_rgbm_pot_read_spec)
  have x: "\<not> (spec_rgb_line (cmdbuf s) \<and> spec_rgbm_line (cmdbuf s))"
    by (simp add: spec_rgb_line_def spec_rgbm_line_def)
  show ?thesis
  proof (cases "spec_rgb_line (cmdbuf s)")
    case True
    then have "\<not> spec_rgbm_line (cmdbuf s)"
      using x by simp
    then show ?thesis
      using True by (simp add: serial_newline adopt_def a spec_output_def)
  next
    case False
    then have "spec_rgbm_line (cmdbuf s)"
      using l by simp
    then show ?thesis
      using False by (simp add: serial_newline adopt_def a spec_output_def set_main_def)
  qed
qed

theorem serial_set_colour_witness:
  "map_option (\<lambda>s'. (programmed s', rgbstrp s', avg s', mainstrp_bright s'))
     (serial_char example_config example_live_reads (CHR 0x0A)
        (example_state\<lparr>programmed := False, cmdbuf := ''#AABBCC''\<rparr>))
     = Some (True, \<lparr>R = 0xAA, G = 0xBB, B = 0xCC\<rparr>, colour 37 100 1 255, 40)
   \<and> avg example_state = colour 128 128 128 128"
proof -
  let ?s = "example_state\<lparr>programmed := False, cmdbuf := ''#AABBCC''\<rparr>"
  have n: "POT_MOV_DET_AVG_SAMPLES example_config \<noteq> 0"
    by (simp add: example_config_def)
  have l: "spec_rgb_line (cmdbuf ?s) \<or> spec_rgbm_line (cmdbuf ?s)"
    by (simp add: example_lines)
  obtain s' where s': "serial_char example_config example_live_reads (CHR 0x0A) ?s = Some s'"
      "programmed s'"
      "avg s' = spec_baseline example_config example_live_reads (unat (POT_MOV_DET_AVG_SAMPLES example_config))"
      "rgbstrp s' = spec_colour (cmdbuf ?s)"
      "mainstrp_bright s' =
         (if spec_rgbm_line (cmdbuf ?s) \<and> \<not> NO_MAIN_STRIP example_config then spec_main (cmdbuf ?s)
          else mainstrp_bright ?s)"
    using serial_set_colour [OF n l, of example_live_reads] by blast
  have "\<not> spec_rgbm_line ''#AABBCC''"
    by (simp add: spec_rgbm_line_def)
  then have "mainstrp_bright s' = 40"
    using s'(5) by (simp add: example_state_def)
  then show ?thesis
    using s'(1-4) by (simp add: example_baseline example_lines) (simp add: example_state_def)
qed

text \<open>
  Claim C4, as stated, fails in a build without a main strip: there a line of \<open>#\<close> and
  eight digits parses and sets the colour of the RGB strip, and the main brightness stays
  what it was.
\<close>

theorem serial_line_no_main_counterexample:
  "NO_MAIN_STRIP example_config_no_main
   \<and> hexstr_to_rgbm ''#AABBCCDD'' local_rgbm = (True, colour 0xAA 0xBB 0xCC 0xDD)
   \<and> mainstrp_bright example_state = 40
   \<and> map_option rgbstrp
        (serial_char example_config_no_main example_reads (CHR 0x0A)
           (example_state\<lparr>cmdbuf := ''#AABBCCDD''\<rparr>)) = Some \<lparr>R = 0xAA, G = 0xBB, B = 0xCC\<rparr>
   \<and> map_option mainstrp_bright
        (serial_char example_config_no_main example_reads (CHR 0x0A)
           (example_state\<lparr>cmdbuf := ''#AABBCCDD''\<rparr>)) = Some 40"
  by code_simp

text \<open>
  Claim C4, amended.  On the line terminator (the buffer holding no zero character), a
  buffer of \<open>#\<close> and six digits sets the colour of the RGB strip and leaves the main
  brightness alone; a buffer of \<open>#\<close> and eight digits sets the colour and, in a build
  with a main strip, the main brightness, which a build without one leaves alone; every
  other buffer, of another length or one that does not parse, changes nothing but the
  serial output, which receives the line \<open>Invalid hex value!\<close>, and the buffer, which
  is emptied.  The lines that parse are exactly those of the two forms.
\<close>

theorem serial_line_outcome:
  "CHR 0x00 \<notin> set (cmdbuf s) \<Longrightarrow> CHR 0x00 \<notin> set l \<Longrightarrow>
   (POT_MOV_DET_AVG_SAMPLES cfg \<noteq> 0 \<and> spec_rgb_line (cmdbuf s) \<longrightarrow>
      (\<exists>s'. serial_char cfg rd (CHR 0x0A) s = Some s'
         \<and> rgbstrp s' = spec_colour (cmdbuf s)
         \<and> mainstrp_bright s' = mainstrp_bright s \<and> MAIN_STRIP s' = MAIN_STRIP s))
   \<and> (POT_MOV_DET_AVG_SAMPLES cfg \<noteq> 0 \<and> spec_rgbm_line (cmdbuf s) \<longrightarrow>
      (\<exists>s'. serial_char cfg rd (CHR 0x0A) s = Some s'
         \<and> rgbstrp s' = spec_colour (cmdbuf s)
         \<and> mainstrp_bright s' = (if NO_MAIN_STRIP cfg then mainstrp_bright s else spec_main (cmdbuf s))
         \<and> MAIN_STRIP s' = (if NO_MAIN_STRIP cfg then MAIN_STRIP s else spec_main (cmdbuf s))))
   \<and> (\<not> spec_rgb_line (cmdbuf s) \<and> \<not> spec_rgbm_line (cmdbuf s) \<longrightarrow>
        serial_char cfg rd (CHR 0x0A) s =
          Some (s\<lparr>Serial := Serial s @ [''Invalid hex value!''], cmdbuf := []\<rparr>))
   \<and> (length l = 7 \<longrightarrow> (spec_rgb_line l \<longleftrightarrow> hexstr_to_rgb l \<noteq> None))
   \<and> (length l = 9 \<longrightarrow> (spec_rgbm_line l \<longleftrightarrow> fst (hexstr_to_rgbm l out)))
   \<and> (spec_rgb_line l \<or> spec_rgbm_line l \<longrightarrow> length l = 7 \<or> length l = 9)"
proof (intro conjI impI)
  assume h: "POT_MOV_DET_AVG_SAMPLES cfg \<noteq> 0 \<and> spec_rgb_line (cmdbuf s)"
  then obtain a where a: "avg_rgbm_pot_read cfg rd (POT_MOV_DET_AVG_SAMPLES cfg) = Some a"
    using avg_rgbm_pot_read_Some by blast
  show "\<exists>s'. serial_char cfg rd (CHR 0x0A) s = Some s'
         \<and> rgbstrp s' = spec_colour (cmdbuf s)
         \<and> mainstrp_bright s' = mainstrp_bright s \<and> MAIN_STRIP s' = MAIN_STRIP s"
    using h a by (simp add: serial_newline adopt_def)
next
  assume h: "POT_MOV_DET_AVG_SAMPLES cfg \<noteq> 0 \<and> spec_rgbm_line (cmdbuf s)"
  then obtain a where a: "avg_rgbm_pot_read cfg rd (POT_MOV_DET_AVG_SAMPLES cfg) = Some a"
    using avg_rgbm_pot_read_Some by blast
  have "\<not> spec_rgb_line (cmdbuf s)"
    using h by (simp add: spec_rgb_line_def spec_rgbm_line_def)
  then show "\<exists>s'. serial_char cfg rd (CHR 0x0A) s = Some s'
         \<and> rgbstrp s' = spec_colour (cmdbuf s)
         \<and> mainstrp_bright s' = (if NO_MAIN_STRIP cfg then mainstrp_bright s else spec_main (cmdbuf s))
         \<and> MAIN_STRIP s' = (if NO_MAIN_STRIP cfg then MAIN_STRIP s else spec_main (cmdbuf s))"
    using h a by (simp add: serial_newline adopt_def set_main_def)
next
  assume "\<not> spec_rgb_line (cmdbuf s) \<and> \<not> spec_rgbm_line (cmdbuf s)"
  then show "serial_char cfg rd (CHR 0x0A) s =
          Some (s\<lparr>Serial := Serial s @ [''Invalid hex value!''], cmdbuf := []\<rparr>)"
    by (simp add: serial_newline)
next
  assume "length l = 7"
  then show "spec_rgb_line l \<longleftrightarrow> hexstr_to_rgb l \<noteq> None"
    by (simp add: hexstr_to_rgb_line)
next
  assume l: "length l = 9"
  show "spec_rgbm_line l \<longleftrightarrow> fst (hexstr_to_rgbm l out)"
    using hexstr_to_rgbm_line [OF l, of out] by (metis fst_conv)
next
  assume "spec_rgb_line l \<or> spec_rgbm_line l"
  then show "length l = 7 \<or> length l = 9"
    by (auto simp add: spec_rgb_line_def spec_rgbm_line_def)
qed

theorem serial_line_outcome_witness:
  "map_option (\<lambda>s'. (rgbstrp s', mainstrp_bright s'))
     (serial_char example_config example_reads (CHR 0x0A) (example_state\<lparr>cmdbuf := ''#AABBCC''\<rparr>))
     = Some (\<lparr>R = 0xAA, G = 0xBB, B = 0xCC\<rparr>, 40)
   \<and> map_option (\<lambda>s'. (rgbstrp s', mainstrp_bright s'))
     (serial_char example_config example_reads (CHR 0x0A) (example_state\<lparr>cmdbuf := ''#AABBCCDD''\<rparr>))
     = Some (\<lparr>R = 0xAA, G = 0xBB, B = 0xCC\<rparr>, 0xDD)
   \<and> map_option (\<lambda>s'. (rgbstrp s', mainstrp_bright s'))
     (serial_char example_config_no_main example_reads (CHR 0x0A) (example_state\<lparr>cmdbuf := ''#AABBCCDD''\<rparr>))
     = Some (\<lparr>R = 0xAA, G = 0xBB, B = 0xCC\<rparr>, 40)
   \<and> serial_char example_config example_reads (CHR 0x0A) (example_state\<lparr>cmdbuf := ''#ZZZZZZ''\<rparr>)
     = Some (example_state\<lparr>Serial := [''Invalid hex value!'']\<rparr>)
   \<and> hexstr_to_rgb ''#ZZZZZZ'' = None
   \<and> fst (hexstr_to_rgbm ''#AABBCCDD'' local_rgbm)"
proof -
  have n: "POT_MOV_DET_AVG_SAMPLES example_config \<noteq> 0" "\<not> NO_MAIN_STRIP example_config"
    "POT_MOV_DET_AVG_SAMPLES example_config_no_main \<noteq> 0" "NO_MAIN_STRIP example_config_no_main"
    by (simp_all add: example_config_def example_config_no_main_def)
  have z: "CHR 0x00 \<notin> set (cmdbuf (example_state\<lparr>cmdbuf := ''#AABBCC''\<rparr>))"
    "CHR 0x00 \<notin> set (cmdbuf (example_state\<lparr>cmdbuf := ''#AABBCCDD''\<rparr>))"
    "CHR 0x00 \<notin> set (cmdbuf (example_state\<lparr>cmdbuf := ''#ZZZZZZ''\<rparr>))"
    "CHR 0x00 \<notin> set ''#ZZZZZZ''" "CHR 0x00 \<notin> set ''#AABBCCDD''"
    by simp_all
  note a = serial_line_outcome [OF z(1) z(4), of example_config example_reads local_rgbm]
  note b = serial_line_outcome [OF z(2) z(5), of example_config example_reads local_rgbm]
  note bn = serial_line_outcome [OF z(2) z(5), of example_config_no_main example_reads local_rgbm]
  note c = serial_line_outcome [OF z(3) z(4), of example_config example_reads local_rgbm]
  have f1: "map_option (\<lambda>s'. (rgbstrp s', mainstrp_bright s'))
     (serial_char example_config example_reads (CHR 0x0A) (example_state\<lparr>cmdbuf := ''#AABBCC''\<rparr>))
     = Some (\<lparr>R = 0xAA, G = 0xBB, B = 0xCC\<rparr>, 40)"
    using a n by (auto simp add: example_lines example_state_def)
  have f2: "map_option (\<lambda>s'. (rgbstrp s', mainstrp_bright s'))
     (serial_char example_config example_reads (CHR 0x0A) (example_state\<lparr>cmdbuf := ''#AABBCCDD''\<rparr>))
     = Some (\<lparr>R = 0xAA, G = 0xBB, B = 0xCC\<rparr>, 0xDD)"
    using b n by (auto simp add: example_lines)
  have f2n: "map_option (\<lambda>s'. (rgbstrp s', mainstrp_bright s'))
     (serial_char example_config_no_main example_reads (CHR 0x0A) (example_state\<lparr>cmdbuf := ''#AABBCCDD''\<rparr>))
     = Some (\<lparr>R = 0xAA, G = 0xBB, B = 0xCC\<rparr>, 40)"
    using bn n by (auto simp add: example_lines example_state_def)
  have f3: "serial_char example_config example_reads (CHR 0x0A) (example_state\<lparr>cmdbuf := ''#ZZZZZZ''\<rparr>)
     = Some (example_state\<lparr>Serial := [''Invalid hex value!'']\<rparr>)"
    using c by (simp add: example_lines example_state_def)
  have f4: "hexstr_to_rgb ''#ZZZZZZ'' = None"
    using c by (simp add: example_lines)
  have f5: "fst (hexstr_to_rgbm ''#AABBCCDD'' local_rgbm)"
    using b by (simp add: example_lines)
  show ?thesis
    using f1 f2 f2n f3 f4 f5 by simp
qed

section \<open>The patch bank\<close>

lemma change_patch_invalid:
  "(up \<and> \<not> current_patch s < 9) \<or> (\<not> up \<and> \<not> current_patch s > 0) \<Longrightarrow>
     change_patch cfg rd up s = Some (s\<lparr>patch_indicator := patch_indicator s @ [Ind_show]\<rparr>)"
  by (auto simp add: change_patch_def)

lemma change_patch_up:
  assumes "current_patch s < 9" "spec_patch_bank s"
    and "avg_rgbm_pot_read cfg rd (POT_MOV_DET_AVG_SAMPLES cfg) = Some a"
  shows "change_patch cfg rd True s =
           Some ((set_main cfg (M (patches s ! (unat (current_patch s) + 1)))
                   (s\<lparr>current_patch := current_patch s + 1,
                      rgbstrp := rgb (patches s ! (unat (current_patch s) + 1))\<rparr>))
                 \<lparr>avg := a, programmed := True,
                  patch_indicator := patch_indicator s @ [Ind_set (unat (current_patch s) + 1), Ind_show]\<rparr>)"
proof -
  have u: "unat (current_patch s + 1) = unat (current_patch s) + 1"
    using assms(1) by (rule cursor_up)
  have "unat (current_patch s) < 9"
    using assms(1) by (simp add: cursor_le)
  then have l: "unat (current_patch s) + 1 < length (patches s)"
    using assms(2) by (simp add: spec_patch_bank_def)
  show ?thesis
    using assms(1) l by (simp add: change_patch_def u adopt_def assms(3) set_main_fields)
qed

lemma change_patch_down:
  assumes "current_patch s > 0" "spec_patch_bank s"
    and "avg_rgbm_pot_read cfg rd (POT_MOV_DET_AVG_SAMPLES cfg) = Some a"
  shows "change_patch cfg rd False s =
           Some ((set_main cfg (M (patches s ! (unat (current_patch s) - 1)))
                   (s\<lparr>current_patch := current_patch s - 1,
                      rgbstrp := rgb (patches s ! (unat (current_patch s) - 1))\<rparr>))
                 \<lparr>avg := a, programmed := True,
                  patch_indicator := patch_indicator s @ [Ind_set (unat (current_patch s) - 1), Ind_show]\<rparr>)"
proof -
  have u: "unat (current_patch s - 1) = unat (current_patch s) - 1"
    using assms(1) by (rule cursor_down)
  have l: "unat (current_patch s) - 1 < length (patches s)"
    using assms(2) by (simp add: spec_patch_bank_def) arith
  show ?thesis
    using assms(1) l by (simp add: change_patch_def u adopt_def assms(3) set_main_fields)
qed

lemma change_patch_bank:
  assumes "spec_patch_bank s" "change_patch cfg rd up s = Some s'"
  shows "spec_patch_bank s'"
proof -
  consider (inv) "(up \<and> \<not> current_patch s < 9) \<or> (\<not> up \<and> \<not> current_patch s > 0)"
    | (u) "up" "current_patch s < 9" | (d) "\<not> up" "current_patch s > 0"
    by blast
  then show ?thesis
  proof cases
    case inv
    then show ?thesis
      using assms by (auto simp add: change_patch_invalid spec_patch_bank_def)
  next
    case u
    have "avg_rgbm_pot_read cfg rd (POT_MOV_DET_AVG_SAMPLES cfg) \<noteq> None"
    proof
      assume n: "avg_rgbm_pot_read cfg rd (POT_MOV_DET_AVG_SAMPLES cfg) = None"
      have "change_patch cfg rd up s = None"
        using u by (simp add: change_patch_def adopt_def n)
      then show False
        using assms(2) by simp
    qed
    then obtain a where a: "avg_rgbm_pot_read cfg rd (POT_MOV_DET_AVG_SAMPLES cfg) = Some a"
      by blast
    have "unat (current_patch s) < 9"
      using u(2) by (simp add: cursor_le)
    then show ?thesis
      using assms change_patch_up [OF u(2) assms(1) a] u(1) cursor_up [OF u(2)]
      by (auto simp add: spec_patch_bank_def set_main_fields)
  next
    case d
    have "avg_rgbm_pot_read cfg rd (POT_MOV_DET_AVG_SAMPLES cfg) \<noteq> None"
    proof
      assume n: "avg_rgbm_pot_read cfg rd (POT_MOV_DET_AVG_SAMPLES cfg) = None"
      have "change_patch cfg rd up s = None"
        using d by (simp add: change_patch_def adopt_def n)
      then show False
        using assms(2) by simp
    qed
    then obtain a where a: "avg_rgbm_pot_read cfg rd (POT_MOV_DET_AVG_SAMPLES cfg) = Some a"
      by blast
    show ?thesis
      using assms change_patch_down [OF d(2) assms(1) a] d(1) cursor_down [OF d(2)]
      by (auto simp add: spec_patch_bank_def set_main_fields)
  qed
qed

lemma arbitrate_bank: "spec_patch_bank (arbitrate cfg rd s) = spec_patch_bank s"
  by (simp add: arbitrate_def spec_patch_bank_def Let_def set_main_fields)

lemma save_patch_bank: "save_patch cfg s = Some s' \<Longrightarrow> spec_patch_bank s' = spec_patch_bank s"
  by (auto simp add: save_patch_def spec_patch_bank_def Let_def split: if_splits)

lemma serial_char_bank: "serial_char cfg rd c s = Some s' \<Longrightarrow> spec_patch_bank s' = spec_patch_bank s"
  by (auto simp add: serial_char_def parse_line_eq adopt_def spec_patch_bank_def set_main_fields
      split: if_splits)

lemma serialEvent_bank: "serialEvent cfg cs s = Some s' \<Longrightarrow> spec_patch_bank s' = spec_patch_bank s"
proof (induction cs arbitrary: s)
  case Nil
  then show ?case by simp
next
  case (Cons x cs)
  obtain c rd where x: "x = (c, rd)"
    by (cases x)
  from Cons.prems obtain s1 where s1: "serial_char cfg rd c s = Some s1" "serialEvent cfg cs s1 = Some s'"
    by (auto simp add: x split: option.splits)
  show ?case
    using Cons.IH [OF s1(2)] serial_char_bank [OF s1(1)] by simp
qed

lemma loop_bank:
  assumes "spec_patch_bank s" "loop cfg i s = Some s'"
  shows "spec_patch_bank s'"
proof -
  let ?s1 = "arbitrate cfg (pots_now i) s"
  have b: "spec_patch_bank ?s1"
    using assms(1) by (simp add: arbitrate_bank)
  obtain s2 where s2: "(case action i of
              pressed \<Rightarrow> save_patch cfg ?s1
            | left \<Rightarrow> change_patch cfg (pots_avg i) False ?s1
            | right \<Rightarrow> change_patch cfg (pots_avg i) True ?s1
            | no_action \<Rightarrow> Some ?s1) = Some s2"
    and s': "s' = (if busy i then s2\<lparr>patch_indicator := patch_indicator s2 @ [Ind_update]\<rparr> else s2)"
    using assms(2) by (auto simp add: loop_def Let_def)
  have "spec_patch_bank s2"
    using s2 b save_patch_bank [of cfg ?s1 s2] change_patch_bank [OF b, of cfg "pots_avg i" _ s2]
    by (cases "action i") auto
  then show ?thesis
    by (simp add: s' spec_patch_bank_def)
qed

lemma setup_boot_bank: "setup_boot cfg e rd = Some s \<Longrightarrow> spec_patch_bank s"
  by (auto simp add: setup_boot_def adopt_def spec_patch_bank_def set_main_fields Let_def)

lemma reachable_bank: "reachable cfg s \<Longrightarrow> spec_patch_bank s"
proof (induction rule: reachable.induct)
  case (boot e rd s)
  then show ?case by (rule setup_boot_bank)
next
  case (cycle s i s')
  then show ?case by (simp add: loop_bank)
next
  case (serial s cs s')
  then show ?case by (simp add: serialEvent_bank)
qed

text \<open>
  Claim C6, as stated, fails in its last part: turning the encoder down at patch 0 is
  rejected, and the indicator is shown all the same.
\<close>

theorem change_patch_shows_counterexample:
  "current_patch example_state = 0
   \<and> map_option patch_indicator (change_patch example_config example_reads False example_state)
       = Some (patch_indicator example_state @ [Ind_show])"
  by (simp add: change_patch_def example_state_def)

text \<open>
  Claim C6, amended.  The cursor of every reachable state lies between 0 and 9.  At 0 a
  step down, and at 9 a step up, is invalid: the state stays as it is, cursor included,
  but for one call that shows the indicator.  A valid step moves the cursor by exactly
  one, sets the digit of the indicator and shows it.
\<close>

theorem change_patch_cursor:
  "(reachable cfg s \<longrightarrow> unat (current_patch s) \<le> 9)
   \<and> (current_patch s = 0 \<longrightarrow>
        change_patch cfg rd False s = Some (s\<lparr>patch_indicator := patch_indicator s @ [Ind_show]\<rparr>))
   \<and> (current_patch s = 9 \<longrightarrow>
        change_patch cfg rd True s = Some (s\<lparr>patch_indicator := patch_indicator s @ [Ind_show]\<rparr>))
   \<and> (spec_patch_bank s \<and> POT_MOV_DET_AVG_SAMPLES cfg \<noteq> 0 \<and> current_patch s < 9 \<longrightarrow>
        (\<exists>s'. change_patch cfg rd True s = Some s'
           \<and> unat (current_patch s') = unat (current_patch s) + 1
           \<and> patch_indicator s' = patch_indicator s @ [Ind_set (unat (current_patch s')), Ind_show]))
   \<and> (spec_patch_bank s \<and> POT_MOV_DET_AVG_SAMPLES cfg \<noteq> 0 \<and> current_patch s > 0 \<longrightarrow>
        (\<exists>s'. change_patch cfg rd False s = Some s'
           \<and> unat (current_patch s') + 1 = unat (current_patch s)
           \<and> patch_indicator s' = patch_indicator s @ [Ind_set (unat (current_patch s')), Ind_show]))
   \<and> (spec_patch_bank s \<and> change_patch cfg rd up s = Some s' \<longrightarrow> unat (current_patch s') \<le> 9)"
proof (intro conjI impI)
  assume "reachable cfg s"
  then show "unat (current_patch s) \<le> 9"
    using reachable_bank by (simp add: spec_patch_bank_def)
next
  assume "current_patch s = 0"
  then show "change_patch cfg rd False s = Some (s\<lparr>patch_indicator := patch_indicator s @ [Ind_show]\<rparr>)"
    by (simp add: change_patch_invalid)
next
  assume "current_patch s = 9"
  then show "change_patch cfg rd True s = Some (s\<lparr>patch_indicator := patch_indicator s @ [Ind_show]\<rparr>)"
    by (simp add: change_patch_invalid)
next
  assume a: "spec_patch_bank s \<and> POT_MOV_DET_AVG_SAMPLES cfg \<noteq> 0 \<and> current_patch s < 9"
  then obtain v where v: "avg_rgbm_pot_read cfg rd (POT_MOV_DET_AVG_SAMPLES cfg) = Some v"
    using avg_rgbm_pot_read_Some by blast
  have c: "current_patch s < 9" and b: "spec_patch_bank s"
    using a by simp_all
  show "\<exists>s'. change_patch cfg rd True s = Some s'
           \<and> unat (current_patch s') = unat (current_patch s) + 1
           \<and> patch_indicator s' = patch_indicator s @ [Ind_set (unat (current_patch s')), Ind_show]"
    by (simp add: change_patch_up [OF c b v] set_main_fields cursor_up [OF c])
next
  assume a: "spec_patch_bank s \<and> POT_MOV_DET_AVG_SAMPLES cfg \<noteq> 0 \<and> current_patch s > 0"
  then obtain v where v: "avg_rgbm_pot_read cfg rd (POT_MOV_DET_AVG_SAMPLES cfg) = Some v"
    using avg_rgbm_pot_read_Some by blast
  have c: "current_patch s > 0" and b: "spec_patch_bank s"
    using a by simp_all
  have "0 < unat (current_patch s)"
    using c by (simp add: cursor_pos)
  then show "\<exists>s'. change_patch cfg rd False s = Some s'
           \<and> unat (current_patch s') + 1 = unat (current_patch s)
           \<and> patch_indicator s' = patch_indicator s @ [Ind_set (unat (current_patch s')), Ind_show]"
    by (simp add: change_patch_down [OF c b v] set_main_fields cursor_down [OF c])
next
  assume "spec_patch_bank s \<and> change_patch cfg rd up s = Some s'"
  then show "unat (current_patch s') \<le> 9"
    using change_patch_bank [of s cfg rd up s'] by (simp add: spec_patch_bank_def)
qed

theorem change_patch_cursor_witness:
  "(\<exists>s0. setup_boot example_config (\<lambda>a. 0) example_reads = Some s0 \<and> reachable example_config s0
       \<and> unat (current_patch s0) \<le> 9)
   \<and> change_patch example_config example_reads False example_state
       = Some (example_state\<lparr>patch_indicator := [Ind_show]\<rparr>)
   \<and> change_patch example_config example_reads True (example_state\<lparr>current_patch := 9\<rparr>)
       = Some (example_state\<lparr>current_patch := 9, patch_indicator := [Ind_show]\<rparr>)
   \<and> map_option (\<lambda>s'. (current_patch s', patch_indicator s'))
        (change_patch example_config example_reads True example_state) = Some (1, [Ind_set 1, Ind_show])
   \<and> map_option (\<lambda>s'. (current_patch s', patch_indicator s'))
        (change_patch example_config example_reads False (example_state\<lparr>current_patch := 9\<rparr>))
        = Some (8, [Ind_set 8, Ind_show])"
proof -
  have n: "POT_MOV_DET_AVG_SAMPLES example_config \<noteq> 0"
    by (simp add: example_config_def)
  obtain s0 where s0: "setup_boot example_config (\<lambda>a. 0) example_reads = Some s0"
    using adopt_total [OF n] by (auto simp add: setup_boot_def Let_def)
  then have r: "reachable example_config s0"
    by (rule reachable.boot)
  have 0: "unat (current_patch s0) \<le> 9"
    using change_patch_cursor [of example_config s0] r by blast
  let ?s9 = "example_state\<lparr>current_patch := 9\<rparr>"
  have b: "spec_patch_bank example_state" "spec_patch_bank ?s9"
    by (simp_all add: spec_patch_bank_def example_state_def)
  have c: "current_patch example_state = 0" "current_patch ?s9 = 9"
    by (simp_all add: example_state_def)
  have lt: "current_patch example_state < 9" "current_patch ?s9 > 0"
    by (simp_all add: example_state_def)
  have 1: "change_patch example_config example_reads False example_state
       = Some (example_state\<lparr>patch_indicator := [Ind_show]\<rparr>)"
    using change_patch_cursor [of example_config example_state example_reads] c(1)
    by (simp add: example_state_def)
  have 2: "change_patch example_config example_reads True ?s9
       = Some (example_state\<lparr>current_patch := 9, patch_indicator := [Ind_show]\<rparr>)"
    using change_patch_cursor [of example_config ?s9 example_reads] c(2)
    by (simp add: example_state_def)
  obtain s1 where s1: "change_patch example_config example_reads True example_state = Some s1"
      "unat (current_patch s1) = unat (current_patch example_state) + 1"
      "patch_indicator s1 = patch_indicator example_state @ [Ind_set (unat (current_patch s1)), Ind_show]"
    using change_patch_cursor [of example_config example_state example_reads] b(1) n lt(1) by blast
  have "unat (current_patch s1) = unat (1 :: 8 word)"
    using s1(2) by (simp add: c)
  then have 3: "current_patch s1 = 1"
    by (simp only: word_unat_eq_iff)
  obtain s2 where s2: "change_patch example_config example_reads False ?s9 = Some s2"
      "unat (current_patch s2) + 1 = unat (current_patch ?s9)"
      "patch_indicator s2 = patch_indicator ?s9 @ [Ind_set (unat (current_patch s2)), Ind_show]"
    using change_patch_cursor [of example_config ?s9 example_reads] b(2) n lt(2) by blast
  have "unat (current_patch s2) = unat (8 :: 8 word)"
    using s2(2) by (simp add: c)
  then have 4: "current_patch s2 = 8"
    by (simp only: word_unat_eq_iff)
  show ?thesis
    using s0 r 0 1 2 s1 3 s2 4 by (simp add: example_state_def)
qed

text \<open>
  Claim C8.  Saving changes neither the programmed flag nor the cursor, the baseline or
  the output.  It stores the colour of the strip and the main brightness, as the output
  has them, in the slot under the cursor, in memory and in the EEPROM, and leaves the
  other slots alone.  The potentiometer values play no part in it.
\<close>

theorem save_patch_persists_output:
  "unat (current_patch s) < length (patches s) \<Longrightarrow>
     \<exists>s'. save_patch cfg s = Some s'
       \<and> programmed s' = programmed s \<and> current_patch s' = current_patch s \<and> avg s' = avg s
       \<and> rgbstrp s' = rgbstrp s \<and> mainstrp_bright s' = mainstrp_bright s \<and> MAIN_STRIP s' = MAIN_STRIP s
       \<and> length (patches s') = length (patches s)
       \<and> patches s' ! unat (current_patch s) = \<lparr>rgb = rgbstrp s, M = mainstrp_bright s\<rparr>
       \<and> EEPROM_get (EEPROM_PATCH_ADDR cfg + sizeof_rgbm * unat (current_patch s)) (EEPROM s')
            = \<lparr>rgb = rgbstrp s, M = mainstrp_bright s\<rparr>
       \<and> (\<forall>j. j \<noteq> unat (current_patch s) \<longrightarrow> patches s' ! j = patches s ! j)
       \<and> save_patch cfg (s\<lparr>rgbmpots := p\<rparr>) = Some (s'\<lparr>rgbmpots := p\<rparr>)"
  by (simp add: save_patch_def Let_def EEPROM_get_def EEPROM_put_def)

theorem save_patch_persists_output_witness:
  "map_option (\<lambda>s'. (programmed s', current_patch s', patches s' ! 0, EEPROM_get 0 (EEPROM s'), patches s' ! 1))
     (save_patch example_config example_state)
     = Some (True, 0, colour 10 20 30 40, colour 10 20 30 40, colour 1 2 3 4)"
proof -
  have l: "unat (current_patch example_state) < length (patches example_state)"
    by (simp add: example_state_def)
  obtain s' where s': "save_patch example_config example_state = Some s'"
      "programmed s' = programmed example_state" "current_patch s' = current_patch example_state"
      "patches s' ! unat (current_patch example_state)
         = \<lparr>rgb = rgbstrp example_state, M = mainstrp_bright example_state\<rparr>"
      "EEPROM_get (EEPROM_PATCH_ADDR example_config + sizeof_rgbm * unat (current_patch example_state))
         (EEPROM s') = \<lparr>rgb = rgbstrp example_state, M = mainstrp_bright example_state\<rparr>"
      "\<forall>j. j \<noteq> unat (current_patch example_state) \<longrightarrow> patches s' ! j = patches example_state ! j"
    using save_patch_persists_output [OF l, of example_config] by blast
  have "patches s' ! 1 = patches example_state ! 1"
    using s'(6) by (simp add: example_state_def)
  then show ?thesis
    using s'(1-5) by (simp add: example_state_def example_config_def colour_def)
qed

section \<open>Arbitration between the programmed colour and the potentiometers\<close>

lemma arbitrate_rest:
  assumes "programmed s" "rgbm_pots_read cfg rd = avg s"
  shows "arbitrate cfg rd s = s\<lparr>rgbmpots := avg s\<rparr>"
proof -
  have "\<not> rgbm_pot_mov_det cfg (avg s) (avg s) (POT_MOV_DET_MAX_DEV cfg)"
    by (simp add: mov_det_iff compared_deviations_def)
  then show ?thesis
    using assms by (simp add: arbitrate_def Let_def)
qed

lemma arbitrate_moved:
  assumes "programmed s"
    and "\<exists>v \<in> set (compared_deviations cfg (rgbm_pots_read cfg rd) (avg s)). uint (POT_MOV_DET_MAX_DEV cfg) < v"
  shows "arbitrate cfg rd s =
           (set_main cfg (M (rgbm_pots_read cfg rd))
              (s\<lparr>rgbmpots := rgbm_pots_read cfg rd, rgbstrp := rgb (rgbm_pots_read cfg rd)\<rparr>))
           \<lparr>programmed := False\<rparr>"
proof -
  have "rgbm_pot_mov_det cfg (rgbm_pots_read cfg rd) (avg s) (POT_MOV_DET_MAX_DEV cfg)"
    using assms(2) by (simp only: mov_det_iff)
  then show ?thesis
    by (simp add: arbitrate_def Let_def)
qed

lemma loop_no_action:
  "action i = no_action \<Longrightarrow>
     loop cfg i s =
       Some (if busy i
             then (arbitrate cfg (pots_now i) s)
                    \<lparr>patch_indicator := patch_indicator (arbitrate cfg (pots_now i) s) @ [Ind_update]\<rparr>
             else arbitrate cfg (pots_now i) s)"
  by (simp add: loop_def Let_def)

lemma loops_rest:
  assumes "programmed s"
    and "\<forall>i \<in> set cs. rgbm_pots_read cfg (pots_now i) = avg s \<and> action i = no_action"
  shows "\<exists>s'. loops cfg cs s = Some s' \<and> programmed s' \<and> avg s' = avg s \<and> rgbstrp s' = rgbstrp s
           \<and> mainstrp_bright s' = mainstrp_bright s \<and> MAIN_STRIP s' = MAIN_STRIP s"
  using assms
proof (induction cs arbitrary: s)
  case Nil
  then show ?case by simp
next
  case (Cons i cs)
  then have i: "rgbm_pots_read cfg (pots_now i) = avg s" "action i = no_action"
    by simp_all
  obtain s1 where s1: "loop cfg i s = Some s1" "programmed s1" "avg s1 = avg s" "rgbstrp s1 = rgbstrp s"
      "mainstrp_bright s1 = mainstrp_bright s" "MAIN_STRIP s1 = MAIN_STRIP s"
    using Cons.prems(1) i by (simp add: loop_no_action arbitrate_rest)
  have "\<forall>i \<in> set cs. rgbm_pots_read cfg (pots_now i) = avg s1 \<and> action i = no_action"
    using Cons.prems(2) s1(3) by simp
  then obtain s' where "loops cfg cs s1 = Some s'" "programmed s'" "avg s' = avg s1" "rgbstrp s' = rgbstrp s1"
      "mainstrp_bright s' = mainstrp_bright s1" "MAIN_STRIP s' = MAIN_STRIP s1"
    using Cons.IH [OF s1(2)] by blast
  then show ?case
    using s1 by simp
qed

text \<open>
  Claim C1.  In the programmed state, a cycle whose reading equals the baseline on every
  channel changes nothing but the stored reading; over any number of such cycles (the
  encoder left alone) the controller stays programmed and its output stays the same.
  A cycle whose reading deviates from the baseline by more than the threshold on a
  compared channel leaves the programmed state at once, and the output is that reading.
\<close>

theorem arbitration_held:
  "(programmed s \<and> rgbm_pots_read cfg rd = avg s \<longrightarrow> arbitrate cfg rd s = s\<lparr>rgbmpots := avg s\<rparr>)
   \<and> (programmed s \<and> (\<forall>i \<in> set cs. rgbm_pots_read cfg (pots_now i) = avg s \<and> action i = no_action) \<longrightarrow>
        (\<exists>s'. loops cfg cs s = Some s' \<and> programmed s' \<and> avg s' = avg s \<and> rgbstrp s' = rgbstrp s
           \<and> mainstrp_bright s' = mainstrp_bright s \<and> MAIN_STRIP s' = MAIN_STRIP s))
   \<and> (programmed s
        \<and> (\<exists>v \<in> set (compared_deviations cfg (rgbm_pots_read cfg rd) (avg s)). uint (POT_MOV_DET_MAX_DEV cfg) < v) \<longrightarrow>
        \<not> programmed (arbitrate cfg rd s)
        \<and> spec_output cfg (arbitrate cfg rd s) = spec_output_of cfg (rgbm_pots_read cfg rd))
   \<and> (programmed s \<and> action i = no_action
        \<and> (\<exists>v \<in> set (compared_deviations cfg (rgbm_pots_read cfg (pots_now i)) (avg s)).
              uint (POT_MOV_DET_MAX_DEV cfg) < v) \<longrightarrow>
        (\<exists>s'. loop cfg i s = Some s' \<and> \<not> programmed s'
           \<and> spec_output cfg s' = spec_output_of cfg (rgbm_pots_read cfg (pots_now i))))"
proof (intro conjI impI)
  assume "programmed s \<and> rgbm_pots_read cfg rd = avg s"
  then show "arbitrate cfg rd s = s\<lparr>rgbmpots := avg s\<rparr>"
    by (simp add: arbitrate_rest)
next
  assume "programmed s \<and> (\<forall>i \<in> set cs. rgbm_pots_read cfg (pots_now i) = avg s \<and> action i = no_action)"
  then show "\<exists>s'. loops cfg cs s = Some s' \<and> programmed s' \<and> avg s' = avg s \<and> rgbstrp s' = rgbstrp s
           \<and> mainstrp_bright s' = mainstrp_bright s \<and> MAIN_STRIP s' = MAIN_STRIP s"
    using loops_rest [of s cs cfg] by blast
next
  assume a: "programmed s
        \<and> (\<exists>v \<in> set (compared_deviations cfg (rgbm_pots_read cfg rd) (avg s)). uint (POT_MOV_DET_MAX_DEV cfg) < v)"
  show "\<not> programmed (arbitrate cfg rd s)"
    using a by (simp add: arbitrate_moved)
  show "spec_output cfg (arbitrate cfg rd s) = spec_output_of cfg (rgbm_pots_read cfg rd)"
    using a by (simp add: arbitrate_moved spec_output_def spec_output_of_def set_main_fields)
next
  assume a: "programmed s \<and> action i = no_action
        \<and> (\<exists>v \<in> set (compared_deviations cfg (rgbm_pots_read cfg (pots_now i)) (avg s)).
              uint (POT_MOV_DET_MAX_DEV cfg) < v)"
  then show "\<exists>s'. loop cfg i s = Some s' \<and> \<not> programmed s'
           \<and> spec_output cfg s' = spec_output_of cfg (rgbm_pots_read cfg (pots_now i))"
    by (simp add: loop_no_action arbitrate_moved spec_output_def spec_output_of_def set_main_fields)
qed

theorem arbitration_held_witness:
  "map_option (\<lambda>s'. (programmed s', rgbstrp s', mainstrp_bright s'))
     (loops example_config [example_cycle 512, example_cycle 512, example_cycle 512] example_state)
     = Some (True, \<lparr>R = 10, G = 20, B = 30\<rparr>, 40)
   \<and> map_option (\<lambda>s'. (programmed s', rgbstrp s', mainstrp_bright s'))
     (loop example_config (example_cycle 600) example_state)
     = Some (False, \<lparr>R = 150, G = 150, B = 150\<rparr>, 150)"
proof -
  have p: "programmed example_state"
    by (simp add: example_state_def)
  have n: "action (example_cycle 512) = no_action" "action (example_cycle 600) = no_action"
    by (simp_all add: example_cycle_def)
  have r: "\<forall>i \<in> set [example_cycle 512, example_cycle 512, example_cycle 512].
      rgbm_pots_read example_config (pots_now i) = avg example_state \<and> action i = no_action"
    by (simp add: example_rest n)
  have m: "\<exists>v \<in> set (compared_deviations example_config
        (rgbm_pots_read example_config (pots_now (example_cycle 600))) (avg example_state)).
      uint (POT_MOV_DET_MAX_DEV example_config) < v"
    unfolding example_moved
    by (simp add: compared_deviations_def example_config_def example_state_def colour_def)
  note t = arbitration_held [of example_state example_config "pots_now (example_cycle 512)"
      "[example_cycle 512, example_cycle 512, example_cycle 512]" "example_cycle 600"]
  obtain s1 where s1: "loops example_config [example_cycle 512, example_cycle 512, example_cycle 512]
        example_state = Some s1" "programmed s1" "rgbstrp s1 = rgbstrp example_state"
      "mainstrp_bright s1 = mainstrp_bright example_state"
    using t p r by blast
  obtain s2 where s2: "loop example_config (example_cycle 600) example_state = Some s2"
      "\<not> programmed s2"
      "spec_output example_config s2 =
         spec_output_of example_config (rgbm_pots_read example_config (pots_now (example_cycle 600)))"
    using t p n(2) m by blast
  have nm: "\<not> NO_MAIN_STRIP example_config"
    by (simp add: example_config_def)
  have "rgbstrp s2 = \<lparr>R = 150, G = 150, B = 150\<rparr> \<and> mainstrp_bright s2 = 150"
    using s2(3) by (simp add: example_moved spec_output_def spec_output_of_def nm colour_def)
  then show ?thesis
    using s1 s2 by (simp add: example_state_def)
qed

section \<open>The firmware stays within defined behaviour\<close>

text \<open>
  With a sample count other than zero, \<open>setup\<close> returns a state, and from every
  reachable state \<open>loop\<close> and \<open>serialEvent\<close> return one: no division by zero, no
  access outside the array of patches.  After \<open>setup\<close> the controller is programmed at
  patch 0, with the colour the EEPROM holds there and a baseline averaged from the
  potentiometers.
\<close>

lemma serial_char_total:
  "POT_MOV_DET_AVG_SAMPLES cfg \<noteq> 0 \<Longrightarrow> \<exists>s'. serial_char cfg rd c s = Some s'"
  using avg_rgbm_pot_read_Some [of "POT_MOV_DET_AVG_SAMPLES cfg" cfg rd]
  by (auto simp add: serial_char_def parse_line_eq adopt_def)

lemma serialEvent_total:
  "POT_MOV_DET_AVG_SAMPLES cfg \<noteq> 0 \<Longrightarrow> \<exists>s'. serialEvent cfg cs s = Some s'"
proof (induction cs arbitrary: s)
  case Nil
  then show ?case by simp
next
  case (Cons x cs)
  obtain c rd where x: "x = (c, rd)"
    by (cases x)
  obtain s1 where s1: "serial_char cfg rd c s = Some s1"
    using serial_char_total [OF Cons.prems] by blast
  show ?case
    using Cons.IH [OF Cons.prems, of s1] by (simp add: x s1)
qed

lemma save_patch_total: "spec_patch_bank s \<Longrightarrow> \<exists>s'. save_patch cfg s = Some s'"
  by (simp add: save_patch_def spec_patch_bank_def Let_def)

lemma change_patch_total:
  assumes "spec_patch_bank s" "POT_MOV_DET_AVG_SAMPLES cfg \<noteq> 0"
  shows "\<exists>s'. change_patch cfg rd up s = Some s'"
proof -
  obtain a where a: "avg_rgbm_pot_read cfg rd (POT_MOV_DET_AVG_SAMPLES cfg) = Some a"
    using avg_rgbm_pot_read_Some [OF assms(2)] by blast
  consider (inv) "(up \<and> \<not> current_patch s < 9) \<or> (\<not> up \<and> \<not> current_patch s > 0)"
    | (u) "up" "current_patch s < 9" | (d) "\<not> up" "current_patch s > 0"
    by blast
  then show ?thesis
  proof cases
    case inv
    then show ?thesis by (simp add: change_patch_invalid)
  next
    case u
    then show ?thesis using change_patch_up [OF u(2) assms(1) a] by simp
  next
    case d
    then show ?thesis using change_patch_down [OF d(2) assms(1) a] by simp
  qed
qed

lemma loop_total:
  assumes "spec_patch_bank s" "POT_MOV_DET_AVG_SAMPLES cfg \<noteq> 0"
  shows "\<exists>s'. loop cfg i s = Some s'"
proof -
  let ?s1 = "arbitrate cfg (pots_now i) s"
  have b: "spec_patch_bank ?s1"
    using assms(1) by (simp add: arbitrate_bank)
  show ?thesis
    using save_patch_total [OF b, of cfg] change_patch_total [OF b assms(2), of "pots_avg i"]
    by (cases "action i") (auto simp add: loop_def Let_def)
qed

lemma firmware_defined:
  assumes "POT_MOV_DET_AVG_SAMPLES cfg \<noteq> 0"
  shows "\<exists>s. setup_boot cfg e rd = Some s"
    and "reachable cfg s \<Longrightarrow> \<exists>s'. loop cfg i s = Some s'"
    and "reachable cfg s \<Longrightarrow> \<exists>s'. serialEvent cfg cs s = Some s'"
proof -
  show "\<exists>s. setup_boot cfg e rd = Some s"
    using adopt_total [OF assms] by (simp add: setup_boot_def Let_def)
  show "reachable cfg s \<Longrightarrow> \<exists>s'. loop cfg i s = Some s'"
    using loop_total [OF reachable_bank assms] .
  show "reachable cfg s \<Longrightarrow> \<exists>s'. serialEvent cfg cs s = Some s'"
    using serialEvent_total [OF assms] .
qed

lemma boot_state:
  assumes "setup_boot cfg e rd = Some s"
  shows "programmed s" and "current_patch s = 0"
    and "rgbstrp s = rgb (EEPROM_get (EEPROM_PATCH_ADDR cfg) e)"
    and "Some (avg s) = avg_rgbm_pot_read cfg rd (POT_MOV_DET_AVG_SAMPLES cfg)"
  using assms by (auto simp add: setup_boot_def adopt_def set_main_fields Let_def upt_rec [of 0])

end
